theory Spec2Isabelle
  imports Complex_Main "HOL-Library.Word" "HOL-Library.AList" "HOL-Library.Monad_Syntax"
begin

unbundle bit_operations_syntax

chapter \<open>Bypass Subtitles: the captioning pipeline\<close>

text \<open>
  A shallow embedding of the browser extension's captioning pipeline: sample encoding,
  adaptive scheduling and dispatch (\<open>content.js\<close>), the transcription and translation
  handlers with their rolling context and the WAV encoder (\<open>background.js\<close>), and the
  consent-gated sync service and the subtitle store (\<open>DataSyncService.js\<close>). Functions
  of the browser platform (base64, the URL parser, SHA-256, the network, the clock) are
  modelled from their standards or taken as inputs, as said where each appears. The
  definitions come first and the verified properties follow.
\<close>

section \<open>Platform primitives: JavaScript strings, numbers and base64\<close>

text \<open>
  A JavaScript string is modelled as a \<open>string\<close> whose characters are code units below
  256; this covers every binary string that \<open>btoa\<close> accepts and every string literal of
  the sources. \<open>String.fromCharCode(b)\<close> of a byte is \<open>char_of (unat b)\<close> and
  \<open>s.charCodeAt(i)\<close> is \<open>of_char (s ! i)\<close>.
\<close>

definition js_whitespace :: "char \<Rightarrow> bool" where
  "js_whitespace c = (of_char c \<in> {9, 10, 11, 12, 13, 32, 160 :: nat})"

definition trim :: "string \<Rightarrow> string" where
  "trim s = rev (dropWhile js_whitespace (rev (dropWhile js_whitespace s)))"

text \<open>Truthiness of a value that is a string, \<open>null\<close> or \<open>undefined\<close>.\<close>

fun truthy :: "string option \<Rightarrow> bool" where
  "truthy None = False"
| "truthy (Some s) = (s \<noteq> [])"

text \<open>
  \<open>btoa\<close> and \<open>atob\<close> are browser functions. \<open>btoa\<close> is base64 with padding
  (RFC 4648); \<open>atob\<close> is the forgiving decoder of the WHATWG Infra standard: ASCII
  whitespace is removed, one or two trailing \<open>=\<close> are removed when the length is a
  multiple of four, a length of 1 modulo 4 or a character outside the alphabet fails
  (\<open>InvalidCharacterError\<close>, here \<open>None\<close>), and left-over bits are dropped.
\<close>

definition b64chars :: string where
  "b64chars = ''ABCDEFGHIJKLMNOPQRSTUVWXYZabcdefghijklmnopqrstuvwxyz0123456789+/''"

fun sextets :: "nat list \<Rightarrow> nat list" where
  "sextets (a # b # c # rest) =
     [a div 4, (a mod 4) * 16 + b div 16, (b mod 16) * 4 + c div 64, c mod 64] @ sextets rest"
| "sextets [a, b] = [a div 4, (a mod 4) * 16 + b div 16, (b mod 16) * 4]"
| "sextets [a] = [a div 4, (a mod 4) * 16]"
| "sextets [] = []"

definition btoa :: "string \<Rightarrow> string" where
  "btoa binary =
     map (\<lambda>s. b64chars ! s) (sextets (map of_char binary))
     @ replicate ((3 - length binary mod 3) mod 3) (CHR ''='')"

definition ascii_whitespace :: "char \<Rightarrow> bool" where
  "ascii_whitespace c = (of_char c \<in> {9, 10, 12, 13, 32 :: nat})"

fun index_of :: "'a \<Rightarrow> 'a list \<Rightarrow> nat option" where
  "index_of x [] = None"
| "index_of x (y # ys) = (if x = y then Some 0 else map_option Suc (index_of x ys))"

definition ends_with :: "string \<Rightarrow> string \<Rightarrow> bool" where
  "ends_with d s = (length s \<le> length d \<and> drop (length d - length s) d = s)"

definition strip_padding :: "string \<Rightarrow> string" where
  "strip_padding d =
     (if length d mod 4 = 0 then
        (if ends_with d ''=='' then take (length d - 2) d
         else if ends_with d ''='' then take (length d - 1) d
         else d)
      else d)"

fun octets :: "nat list \<Rightarrow> nat list" where
  "octets (s1 # s2 # s3 # s4 # rest) =
     [s1 * 4 + s2 div 16, (s2 mod 16) * 16 + s3 div 4, (s3 mod 4) * 64 + s4] @ octets rest"
| "octets [s1, s2, s3] = [s1 * 4 + s2 div 16, (s2 mod 16) * 16 + s3 div 4]"
| "octets [s1, s2] = [s1 * 4 + s2 div 16]"
| "octets _ = []"

definition atob :: "string \<Rightarrow> string option" where
  "atob data =
     (let d = strip_padding (filter (\<lambda>c. \<not> ascii_whitespace c) data) in
      if length d mod 4 = 1 then None
      else case those (map (\<lambda>c. index_of c b64chars) d) of
             None \<Rightarrow> None
           | Some ss \<Rightarrow> Some (map char_of (octets ss)))"

section \<open>content.js: sample encoding\<close>

text \<open>
  A sample of the captured stream is a 32-bit float: a finite value, an infinity or NaN.
  A finite float is a dyadic rational and its product with 32768 (a power of two) is exact
  in double precision, so finite values are reals and the arithmetic below is exact.
  \<open>Math.min\<close> and \<open>Math.max\<close> return NaN when an argument is NaN. Storing a number
  into an \<open>Int16Array\<close> applies \<open>ToInt16\<close>: NaN and the infinities become 0, any other
  value is truncated towards zero and reduced modulo \<open>2^16\<close>.
\<close>

datatype jsnum = Num real | PosInf | NegInf | NaN

fun jsnum_times :: "jsnum \<Rightarrow> real \<Rightarrow> jsnum" where
  "jsnum_times (Num x) k = Num (x * k)"
| "jsnum_times PosInf k = PosInf"
| "jsnum_times NegInf k = NegInf"
| "jsnum_times NaN k = NaN"

fun Math_min :: "jsnum \<Rightarrow> jsnum \<Rightarrow> jsnum" where
  "Math_min NaN y = NaN"
| "Math_min x NaN = NaN"
| "Math_min NegInf y = NegInf"
| "Math_min x NegInf = NegInf"
| "Math_min PosInf y = y"
| "Math_min x PosInf = x"
| "Math_min (Num a) (Num b) = Num (min a b)"

fun Math_max :: "jsnum \<Rightarrow> jsnum \<Rightarrow> jsnum" where
  "Math_max NaN y = NaN"
| "Math_max x NaN = NaN"
| "Math_max PosInf y = PosInf"
| "Math_max x PosInf = PosInf"
| "Math_max NegInf y = y"
| "Math_max x NegInf = x"
| "Math_max (Num a) (Num b) = Num (max a b)"

definition trunc_toward_zero :: "real \<Rightarrow> int" where
  "trunc_toward_zero r = (if 0 \<le> r then \<lfloor>r\<rfloor> else \<lceil>r\<rceil>)"

fun ToInt16 :: "jsnum \<Rightarrow> 16 word" where
  "ToInt16 (Num r) = word_of_int (trunc_toward_zero r)"
| "ToInt16 v = 0"

text \<open>The body of the loop of \<open>onaudioprocess\<close>, for one sample.\<close>

definition encodeSample :: "jsnum \<Rightarrow> 16 word" where
  "encodeSample x = ToInt16 (Math_max (Num (- 32768)) (Math_min (Num 32767) (jsnum_times x 32768)))"

definition onaudioprocess :: "bool \<Rightarrow> jsnum list \<Rightarrow> 16 word list list \<Rightarrow> 16 word list list" where
  "onaudioprocess isEnabled inputData audioChunks =
     (if \<not> isEnabled then audioChunks else audioChunks @ [map encodeSample inputData])"

section \<open>Typed arrays, \<open>DataView\<close> and the WAV container\<close>

text \<open>
  An \<open>ArrayBuffer\<close> is a list of bytes. An \<open>Int16Array\<close> over a buffer reads and writes
  in the byte order of the platform, modelled as little-endian; constructing it over a buffer
  of odd length raises \<open>RangeError\<close>. A \<open>DataView\<close> write outside the buffer raises
  \<open>RangeError\<close> too (\<open>None\<close>).
\<close>

datatype error = InvalidCharacterError | RangeError

type_synonym buffer = "8 word list"

definition uint16_le :: "16 word \<Rightarrow> 8 word list" where
  "uint16_le w = [ucast w, ucast (drop_bit 8 w)]"

definition uint32_le :: "32 word \<Rightarrow> 8 word list" where
  "uint32_le w = [ucast w, ucast (drop_bit 8 w), ucast (drop_bit 16 w), ucast (drop_bit 24 w)]"

definition int16_buffer :: "16 word list \<Rightarrow> buffer" where
  "int16_buffer samples = concat (map uint16_le samples)"

fun int16_view :: "buffer \<Rightarrow> 16 word list option" where
  "int16_view [] = Some []"
| "int16_view [b] = None"
| "int16_view (lo # hi # rest) =
     map_option ((#) (push_bit 8 (ucast hi) OR ucast lo)) (int16_view rest)"

definition setBytes :: "buffer \<Rightarrow> nat \<Rightarrow> 8 word list \<Rightarrow> buffer option" where
  "setBytes view byteOffset bs =
     (if byteOffset + length bs \<le> length view
      then Some (take byteOffset view @ bs @ drop (byteOffset + length bs) view)
      else None)"

definition setUint8 :: "buffer \<Rightarrow> nat \<Rightarrow> nat \<Rightarrow> buffer option" where
  "setUint8 view byteOffset v = setBytes view byteOffset [of_nat v]"

text \<open>The writes below are the little-endian ones (third argument \<open>true\<close> in the source).\<close>

definition setUint16 :: "buffer \<Rightarrow> nat \<Rightarrow> nat \<Rightarrow> buffer option" where
  "setUint16 view byteOffset v = setBytes view byteOffset (uint16_le (of_nat v))"

definition setUint32 :: "buffer \<Rightarrow> nat \<Rightarrow> nat \<Rightarrow> buffer option" where
  "setUint32 view byteOffset v = setBytes view byteOffset (uint32_le (of_nat v))"

definition setInt16 :: "buffer \<Rightarrow> nat \<Rightarrow> 16 word \<Rightarrow> buffer option" where
  "setInt16 view byteOffset v = setBytes view byteOffset (uint16_le v)"

section \<open>background.js: WAV encoding\<close>

fun writeString :: "buffer \<Rightarrow> nat \<Rightarrow> string \<Rightarrow> buffer option" where
  "writeString view offset [] = Some view"
| "writeString view offset (c # cs) =
     (case setUint8 view offset (of_char c) of
        None \<Rightarrow> None
      | Some view' \<Rightarrow> writeString view' (Suc offset) cs)"

text \<open>The final loop of \<open>createWavFile\<close>: sample \<open>i\<close> goes to offset \<open>pcmOffset + i * 2\<close>.\<close>

fun writeSamples :: "buffer \<Rightarrow> nat \<Rightarrow> nat \<Rightarrow> 16 word list \<Rightarrow> buffer option" where
  "writeSamples view pcmOffset i [] = Some view"
| "writeSamples view pcmOffset i (x # xs) =
     (case setInt16 view (pcmOffset + i * 2) x of
        None \<Rightarrow> None
      | Some view' \<Rightarrow> writeSamples view' pcmOffset (Suc i) xs)"

definition createWavFile :: "16 word list \<Rightarrow> nat \<Rightarrow> buffer option" where
  "createWavFile pcmData sampleRate =
     (let numChannels = 1;
          bitsPerSample = 16;
          byteRate = sampleRate * numChannels * (bitsPerSample div 8);
          blockAlign = numChannels * (bitsPerSample div 8);
          dataSize = length pcmData * (bitsPerSample div 8);
          headerSize = 44;
          buffer = replicate (headerSize + dataSize) 0
      in do {
        view \<leftarrow> writeString buffer 0 ''RIFF'';
        view \<leftarrow> setUint32 view 4 (36 + dataSize);
        view \<leftarrow> writeString view 8 ''WAVE'';
        view \<leftarrow> writeString view 12 ''fmt '';
        view \<leftarrow> setUint32 view 16 16;
        view \<leftarrow> setUint16 view 20 1;
        view \<leftarrow> setUint16 view 22 numChannels;
        view \<leftarrow> setUint32 view 24 sampleRate;
        view \<leftarrow> setUint32 view 28 byteRate;
        view \<leftarrow> setUint16 view 32 blockAlign;
        view \<leftarrow> setUint16 view 34 bitsPerSample;
        view \<leftarrow> writeString view 36 ''data'';
        view \<leftarrow> setUint32 view 40 dataSize;
        writeSamples view 44 0 pcmData
      })"

record blob =
  blob_data :: buffer
  blob_type :: string

definition base64ToBlob :: "string \<Rightarrow> string \<Rightarrow> error + blob" where
  "base64ToBlob base64 mimeType =
     (case atob base64 of
        None \<Rightarrow> Inl InvalidCharacterError
      | Some binaryString \<Rightarrow>
          (let bytes = map (\<lambda>c. of_nat (of_char c)) binaryString in
           case int16_view bytes of
             None \<Rightarrow> Inl RangeError
           | Some pcmData \<Rightarrow>
               (case createWavFile pcmData 16000 of
                  None \<Rightarrow> Inl RangeError
                | Some wavBuffer \<Rightarrow> Inr \<lparr>blob_data = wavBuffer, blob_type = mimeType\<rparr>)))"

section \<open>content.js: base64 transport encoding\<close>

definition arrayBufferToBase64 :: "buffer \<Rightarrow> string" where
  "arrayBufferToBase64 buffer = btoa (fold (\<lambda>b binary. binary @ [char_of (unat b)]) buffer [])"

text \<open>
  Readers for the fields of a finished WAV buffer, used to state what the header declares:
  an unsigned 32-bit little-endian field.
\<close>

fun uint32_of_le :: "8 word list \<Rightarrow> nat" where
  "uint32_of_le [b0, b1, b2, b3] =
     unat b0 + 256 * unat b1 + 65536 * unat b2 + 16777216 * unat b3"
| "uint32_of_le bs = 0"

text \<open>The 44 header bytes that \<open>createWavFile\<close> writes for \<open>n\<close> samples.\<close>

definition wavHeader :: "nat \<Rightarrow> nat \<Rightarrow> buffer" where
  "wavHeader n sampleRate =
     map (\<lambda>c. of_nat (of_char c)) ''RIFF'' @ uint32_le (of_nat (36 + n * 2))
     @ map (\<lambda>c. of_nat (of_char c)) ''WAVE'' @ map (\<lambda>c. of_nat (of_char c)) ''fmt ''
     @ uint32_le 16 @ uint16_le 1 @ uint16_le 1 @ uint32_le (of_nat sampleRate)
     @ uint32_le (of_nat (sampleRate * 2)) @ uint16_le 2 @ uint16_le 16
     @ map (\<lambda>c. of_nat (of_char c)) ''data'' @ uint32_le (of_nat (n * 2))"

section \<open>background.js: transcription and translation handlers\<close>

text \<open>
  The network is an input of the model: every \<open>fetch\<close> of a handler is given its outcome,
  either a rejected promise (\<open>NetworkFailure\<close>) or a response with its status, the message
  of an error body when it has one, and the parsed JSON body (\<open>None\<close> when
  \<open>response.json()\<close> rejects). \<open>response.ok\<close> is a status from 200 to 299.
\<close>

datatype 'a fetch_outcome = NetworkFailure | HttpResponse nat "string option" "'a option"

definition ok :: "nat \<Rightarrow> bool" where
  "ok status = (200 \<le> status \<and> status \<le> 299)"

text \<open>The three JSON bodies the handlers read, reduced to the fields they read.\<close>

record proxy_result =
  p_text :: "string option"
  p_original :: "string option"
  p_translated :: "string option"
  p_provider :: "string option"

record whisper_result =
  w_text :: "string option"

record chat_result =
  c_content :: "string option"

text \<open>
  The \<open>transcribe\<close> message; a field the sender leaves out is \<open>undefined\<close> (\<open>None\<close>).
\<close>

record transcribe_message =
  m_audio :: string
  m_sourceLang :: "string option"
  m_targetLang :: "string option"
  m_showOriginal :: "bool option"
  m_apiMode :: "string option"
  m_groqApiKey :: "string option"

text \<open>What a handler resolves with: the proxy's JSON in proxied mode, \<open>responseMsg\<close> in
  direct mode.\<close>

record transcription_result =
  r_text :: "string option"
  r_original :: "string option"
  r_translated :: "string option"
  r_provider :: "string option"

datatype bg_error =
    MissingCredentials
  | MissingApiKey
  | AudioDecodeError error
  | NetworkError
  | BackendError "string option" nat
  | ApiError "string option" nat
  | JsonError
  | TypeError

text \<open>\<open>config.js\<close> is not part of the sources; its two fields are parameters.\<close>

record config =
  backendUrl :: "string option"
  apiSecret :: "string option"

type_synonym context_entry = "string \<times> string"

definition MAX_CONTEXT_SIZE :: nat where
  "MAX_CONTEXT_SIZE = 3"

text \<open>
  The block under \<open>// Update context\<close>, identical in both handlers: push the pair when
  both texts are truthy, then shift once when the length exceeds \<open>MAX_CONTEXT_SIZE\<close>.
\<close>

definition updateContext ::
  "string option \<Rightarrow> string option \<Rightarrow> context_entry list \<Rightarrow> context_entry list" where
  "updateContext original translated translationContext =
     (case (original, translated) of
        (Some orig, Some tr) \<Rightarrow>
          (if orig \<noteq> [] \<and> tr \<noteq> [] then
             (let pushed = translationContext @ [(orig, tr)] in
              if length pushed > MAX_CONTEXT_SIZE then tl pushed else pushed)
           else translationContext)
      | _ \<Rightarrow> translationContext)"

definition handleBackendProcessing ::
  "config \<Rightarrow> context_entry list \<Rightarrow> transcribe_message \<Rightarrow> proxy_result fetch_outcome
   \<Rightarrow> (bg_error + transcription_result) \<times> context_entry list" where
  "handleBackendProcessing cfg translationContext message proxyFetch =
     (if \<not> truthy (apiSecret cfg) \<or> \<not> truthy (backendUrl cfg) then
        (Inl MissingCredentials, translationContext)
      else case base64ToBlob (m_audio message) ''audio/wav'' of
        Inl e \<Rightarrow> (Inl (AudioDecodeError e), translationContext)
      | Inr audioBlob \<Rightarrow>
          (case proxyFetch of
             NetworkFailure \<Rightarrow> (Inl NetworkError, translationContext)
           | HttpResponse status detail body \<Rightarrow>
               if \<not> ok status then (Inl (BackendError detail status), translationContext)
               else case body of
                 None \<Rightarrow> (Inl JsonError, translationContext)
               | Some result \<Rightarrow>
                   (case p_text result of
                      None \<Rightarrow> (Inl TypeError, translationContext)
                    | Some text \<Rightarrow>
                        (Inr \<lparr>r_text = p_text result, r_original = p_original result,
                              r_translated = p_translated result,
                              r_provider = p_provider result\<rparr>,
                         updateContext (p_original result) (p_translated result)
                           translationContext))))"

definition translateText ::
  "string option \<Rightarrow> string \<Rightarrow> string \<Rightarrow> string option \<Rightarrow> context_entry list
   \<Rightarrow> chat_result fetch_outcome \<Rightarrow> bg_error + string" where
  "translateText text targetLang apiKey mode context chatFetch =
     (case chatFetch of
        NetworkFailure \<Rightarrow> Inl NetworkError
      | HttpResponse status detail body \<Rightarrow>
          if \<not> ok status then Inr ''''
          else case body of
            None \<Rightarrow> Inl JsonError
          | Some data \<Rightarrow>
              (case c_content data of None \<Rightarrow> Inr '''' | Some content \<Rightarrow> Inr (trim content)))"

definition handleDirectProcessing ::
  "context_entry list \<Rightarrow> transcribe_message \<Rightarrow> whisper_result fetch_outcome
   \<Rightarrow> chat_result fetch_outcome \<Rightarrow> (bg_error + transcription_result) \<times> context_entry list" where
  "handleDirectProcessing translationContext message transcribeFetch chatFetch =
     (case m_groqApiKey message of
        None \<Rightarrow> (Inl MissingApiKey, translationContext)
      | Some groqApiKey \<Rightarrow>
        if groqApiKey = [] then (Inl MissingApiKey, translationContext)
        else case base64ToBlob (m_audio message) ''audio/wav'' of
          Inl e \<Rightarrow> (Inl (AudioDecodeError e), translationContext)
        | Inr audioBlob \<Rightarrow>
            (case transcribeFetch of
               NetworkFailure \<Rightarrow> (Inl NetworkError, translationContext)
             | HttpResponse status detail body \<Rightarrow>
                 if \<not> ok status then (Inl (ApiError detail status), translationContext)
                 else case body of
                   None \<Rightarrow> (Inl JsonError, translationContext)
                 | Some result \<Rightarrow>
                     (let text = w_text result;
                          original = text;
                          translation =
                            (case m_targetLang message of
                               None \<Rightarrow> Inr ''''
                             | Some targetLang \<Rightarrow>
                                 if targetLang = [] then Inr ''''
                                 else translateText text targetLang groqApiKey
                                        (m_apiMode message) translationContext chatFetch)
                      in case translation of
                           Inl e \<Rightarrow> (Inl e, translationContext)
                         | Inr translated \<Rightarrow>
                             (Inr \<lparr>r_text = (if translated \<noteq> [] then Some translated
                                              else original),
                                   r_original = original,
                                   r_translated = Some translated,
                                   r_provider = m_apiMode message\<rparr>,
                              updateContext original (Some translated) translationContext))))"

text \<open>
  The message listener. Each handler's update of \<open>translationContext\<close> runs without an
  intervening \<open>await\<close> (push and shift are one synchronous block on the current value of
  the variable), so a completed message is one step on the state.
\<close>

record bg_state =
  extensionEnabled :: bool
  translationContext :: "context_entry list"

definition initial_bg_state :: bg_state where
  "initial_bg_state = \<lparr>extensionEnabled = False, translationContext = []\<rparr>"

datatype bg_message =
    GetGlobalState
  | SetGlobalState bool
  | Transcribe transcribe_message "proxy_result fetch_outcome"
      "whisper_result fetch_outcome" "chat_result fetch_outcome"
  | ResetContext
  | UnknownAction

datatype bg_response =
    GlobalState bool
  | Success
  | Result transcription_result
  | Failure bg_error
  | UnknownActionError

definition onMessage :: "config \<Rightarrow> bg_message \<Rightarrow> bg_state \<Rightarrow> bg_response \<times> bg_state" where
  "onMessage cfg message st =
     (case message of
        GetGlobalState \<Rightarrow> (GlobalState (extensionEnabled st), st)
      | SetGlobalState enabled \<Rightarrow> (Success, st\<lparr>extensionEnabled := enabled\<rparr>)
      | Transcribe m proxyFetch transcribeFetch chatFetch \<Rightarrow>
          (let (res, ctx) =
                 (if m_apiMode m = Some ''trial''
                  then handleBackendProcessing cfg (translationContext st) m proxyFetch
                  else handleDirectProcessing (translationContext st) m transcribeFetch chatFetch)
           in (case res of Inl e \<Rightarrow> Failure e | Inr r \<Rightarrow> Result r,
               st\<lparr>translationContext := ctx\<rparr>))
      | ResetContext \<Rightarrow> (Success, st\<lparr>translationContext := []\<rparr>)
      | UnknownAction \<Rightarrow> (UnknownActionError, st))"

definition runMessages :: "config \<Rightarrow> bg_message list \<Rightarrow> bg_state \<Rightarrow> bg_state" where
  "runMessages cfg messages st = fold (\<lambda>m s. snd (onMessage cfg m s)) messages st"

section \<open>Platform primitives: double-precision arithmetic\<close>

text \<open>
  The chunk age is computed on IEEE 754 binary64 numbers. A finite double is written
  \<open>Double m e\<close> for the value \<open>m * 2^e\<close>, with \<open>\<bar>m\<bar> < 2^53\<close> and
  \<open>- 1074 \<le> e\<close> (the pair need not be normalised; signed zeros are not told apart).
  \<open>to_double m e\<close> is the result of an operation whose exact value is \<open>m * 2^e\<close>:
  the nearest double, ties to the even mantissa, on the grid of the subnormals below their
  range, and an infinity when the rounded magnitude reaches \<open>2^1024\<close>. The products and
  differences below have exact values of this form, so they are rounded once, as the
  hardware does. \<open>bitlen\<close> is the number of binary digits of a positive integer.
\<close>

datatype double = Double int int | PlusInfinity | MinusInfinity

function bitlen :: "int \<Rightarrow> int" where
  "bitlen m = (if m \<le> 0 then 0 else 1 + bitlen (m div 2))"
  by pat_completeness auto
termination
  by (relation "measure nat") auto

declare bitlen.simps [simp del]

definition round_half_even :: "int \<Rightarrow> int \<Rightarrow> int" where
  "round_half_even m d =
     (let q = m div d; r = m mod d
      in if 2 * r < d then q
         else if 2 * r > d then q + 1
         else if even q then q else q + 1)"

definition to_double :: "int \<Rightarrow> int \<Rightarrow> double" where
  "to_double m e =
     (let s = max (bitlen \<bar>m\<bar> - 53) (- 1074 - e);
          m' = (if s \<le> 0 then m else round_half_even m (2 ^ nat s));
          e' = (if s \<le> 0 then e else e + s)
      in if bitlen \<bar>m'\<bar> + e' > 1024
         then (if 0 < m' then PlusInfinity else MinusInfinity)
         else Double m' e')"

text \<open>
  \<open>x * k\<close> for a double \<open>x\<close> and a positive whole number \<open>k\<close>, \<open>n - x\<close> for a whole
  number \<open>n\<close> below \<open>2^53\<close> (both exact as doubles), and \<open>x > k\<close>.
\<close>

fun double_times_int :: "double \<Rightarrow> int \<Rightarrow> double" where
  "double_times_int (Double m e) k = to_double (m * k) e"
| "double_times_int PlusInfinity k = PlusInfinity"
| "double_times_int MinusInfinity k = MinusInfinity"

fun int_minus_double :: "int \<Rightarrow> double \<Rightarrow> double" where
  "int_minus_double n (Double m e) =
     (if 0 \<le> e then to_double (n - m * 2 ^ nat e) 0
      else to_double (n * 2 ^ nat (- e) - m) e)"
| "int_minus_double n PlusInfinity = MinusInfinity"
| "int_minus_double n MinusInfinity = PlusInfinity"

fun double_gt_int :: "double \<Rightarrow> int \<Rightarrow> bool" where
  "double_gt_int (Double m e) k =
     (if 0 \<le> e then k < m * 2 ^ nat e else k * 2 ^ nat (- e) < m)"
| "double_gt_int PlusInfinity k = True"
| "double_gt_int MinusInfinity k = False"

text \<open>The real number a finite double stands for.\<close>

fun double_value :: "double \<Rightarrow> real option" where
  "double_value (Double m e) =
     Some (if 0 \<le> e then real_of_int (m * 2 ^ nat e) else real_of_int m / 2 ^ nat (- e))"
| "double_value PlusInfinity = None"
| "double_value MinusInfinity = None"

section \<open>content.js: adaptive chunk scheduling and dispatch\<close>

text \<open>
  The module-level variables of content.js that the scheduler and the dispatch functions
  read and write. \<open>activeVideo\<close> is the selected video element, represented by its
  \<open>currentTime\<close> in seconds (\<open>None\<close> for \<open>null\<close>); \<open>websocket\<close> is \<open>None\<close> for
  \<open>null\<close> and otherwise tells whether \<open>readyState\<close> is \<open>OPEN\<close>; \<open>sendInterval\<close>
  holds the period of the running \<open>setInterval\<close> timer. Durations and processing times are
  whole milliseconds (\<open>Date.now()\<close> differences and 3000 plus or minus steps of 500), so
  they are integers; the products with 0.8 and 0.3 are taken in the reals. The video time
  is a double and the chunk age is computed in double precision. For whole milliseconds the comparisons of \<open>adaptChunkSize\<close> come out the same in double
  precision: the product with 0.8 is rounded to the exact value or just above it, the one
  with 0.3 to the exact value or just below it, and no whole number lies in between.
\<close>

record settings =
  sourceLang :: string
  targetLang :: string
  showOriginal :: bool
  apiMode :: string
  groqApiKey :: string

record content_state =
  activeVideo :: "double option"
  websocket :: "bool option"
  audioChunks :: "16 word list list"
  currentChunkDuration :: int
  lastProcessingTime :: int
  lagAccumulator :: int
  sendInterval :: "int option"
  currentSettings :: settings

definition AUDIO_CHUNK_DURATION_MS :: int where
  "AUDIO_CHUNK_DURATION_MS = 3000"

definition MAX_LAG_MS :: int where
  "MAX_LAG_MS = 5000"

definition initial_settings :: settings where
  "initial_settings =
     \<lparr>sourceLang = ''auto'', targetLang = ''vi'', showOriginal = True, apiMode = ''groq'',
      groqApiKey = ''''\<rparr>"

definition initial_content_state :: content_state where
  "initial_content_state =
     \<lparr>activeVideo = None, websocket = None, audioChunks = [],
      currentChunkDuration = AUDIO_CHUNK_DURATION_MS, lastProcessingTime = 0,
      lagAccumulator = 0, sendInterval = None, currentSettings = initial_settings\<rparr>"

definition restartSendInterval :: "content_state \<Rightarrow> content_state" where
  "restartSendInterval st = st\<lparr>sendInterval := Some (currentChunkDuration st)\<rparr>"

definition adaptChunkSize :: "int \<Rightarrow> content_state \<Rightarrow> content_state" where
  "adaptChunkSize processingTime st =
     (let threshold = real_of_int (currentChunkDuration st) * 0.8 in
      if real_of_int processingTime > threshold \<and> currentChunkDuration st < 6000 then
        restartSendInterval
          (st\<lparr>currentChunkDuration := min 6000 (currentChunkDuration st + 500)\<rparr>)
      else if real_of_int processingTime < real_of_int (currentChunkDuration st) * 0.3
              \<and> currentChunkDuration st > 2000 then
        restartSendInterval
          (st\<lparr>currentChunkDuration := max 2000 (currentChunkDuration st - 500)\<rparr>)
      else st)"

text \<open>A run of adaptation steps, one per observed processing time, oldest first.\<close>

definition adaptAll :: "int list \<Rightarrow> content_state \<Rightarrow> content_state" where
  "adaptAll pts st = fold adaptChunkSize pts st"

text \<open>
  What a dispatch puts on the network: a \<open>transcribe\<close> message to the background script
  (which performs the HTTP requests) or a frame on the WebSocket of the local backend.
\<close>

datatype network_call =
    RuntimeMessage string string string string bool
  | WebSocketSend string string string bool double

text \<open>
  The answer of the background script to \<open>chrome.runtime.sendMessage\<close>: the promise
  rejects, resolves with \<open>undefined\<close>, or resolves with a response, given by its
  \<open>error\<close> field and the rest of the object.
\<close>

datatype reply = SendRejected | NoResponse | Response "string option" transcription_result

text \<open>
  \<open>sendToGroqAPI\<close> reads the clock three times: \<open>startTime\<close>, \<open>now\<close> for the chunk age
  and \<open>endTime\<close> after the answer. It returns the new state, the network calls made and
  the response handed to \<open>handleTranscription\<close>, if any.
\<close>

definition sendToGroqAPI ::
  "content_state \<Rightarrow> string \<Rightarrow> double \<Rightarrow> int \<Rightarrow> int \<Rightarrow> int \<Rightarrow> reply
   \<Rightarrow> content_state \<times> network_call list \<times> transcription_result option" where
  "sendToGroqAPI st base64Audio videoTime startTime now endTime answer =
     (let chunkAge = int_minus_double now (double_times_int videoTime 1000) in
      if double_gt_int chunkAge MAX_LAG_MS then (st\<lparr>lagAccumulator := 0\<rparr>, [], None)
      else
        (let s = currentSettings st;
             call = RuntimeMessage base64Audio (groqApiKey s) (sourceLang s) (targetLang s)
                      (showOriginal s);
             processingTime = endTime - startTime;
             adapted = adaptChunkSize processingTime (st\<lparr>lastProcessingTime := processingTime\<rparr>)
         in case answer of
              SendRejected \<Rightarrow> (st, [call], None)
            | NoResponse \<Rightarrow> (adapted, [call], None)
            | Response err r \<Rightarrow>
                (if truthy err then (adapted, [call], None) else (adapted, [call], Some r))))"

definition sendToLocalBackend ::
  "content_state \<Rightarrow> string \<Rightarrow> double \<Rightarrow> content_state \<times> network_call list" where
  "sendToLocalBackend st base64Audio videoTime =
     (if websocket st \<noteq> Some True then (st, [])
      else
        (let s = currentSettings st
         in (st, [WebSocketSend base64Audio (sourceLang s) (targetLang s) (showOriginal s)
                    videoTime])))"

definition sendAudioChunks ::
  "content_state \<Rightarrow> int \<Rightarrow> int \<Rightarrow> int \<Rightarrow> reply
   \<Rightarrow> content_state \<times> network_call list \<times> transcription_result option" where
  "sendAudioChunks st startTime now endTime answer =
     (case activeVideo st of
        None \<Rightarrow> (st, [], None)
      | Some videoTime \<Rightarrow>
          if audioChunks st = [] then (st, [], None)
          else
            (let mergedData = concat (audioChunks st);
                 st' = st\<lparr>audioChunks := []\<rparr>;
                 base64Audio = arrayBufferToBase64 (int16_buffer mergedData)
             in if apiMode (currentSettings st') = ''groq''
                then sendToGroqAPI st' base64Audio videoTime startTime now endTime answer
                else (let (st'', calls) = sendToLocalBackend st' base64Audio videoTime
                      in (st'', calls, None))))"

section \<open>DataSyncService.js: consent-gated sync\<close>

definition WHITELISTED_SITES :: "string list" where
  "WHITELISTED_SITES =
     [''youtube.com'', ''www.youtube.com'',
      ''bilibili.com'', ''www.bilibili.com'',
      ''vimeo.com'', ''www.vimeo.com'',
      ''twitch.tv'', ''www.twitch.tv'']"

text \<open>\<open>s.startsWith(t)\<close> and \<open>s.includes(t)\<close> of JavaScript strings.\<close>

fun startsWith :: "string \<Rightarrow> string \<Rightarrow> bool" where
  "startsWith s [] = True"
| "startsWith [] (c # cs) = False"
| "startsWith (d # ds) (c # cs) = (d = c \<and> startsWith ds cs)"

fun includes_str :: "string \<Rightarrow> string \<Rightarrow> bool" where
  "includes_str [] t = (t = [])"
| "includes_str (c # cs) t = (startsWith (c # cs) t \<or> includes_str cs t)"

text \<open>
  \<open>new URL(url)\<close> is the URL parser of the platform, a parameter \<open>parseURL\<close> of the
  model: \<open>None\<close> when the constructor throws, otherwise the parsed URL with its
  \<open>protocol\<close> and \<open>hostname\<close>.
\<close>

record url =
  protocol :: string
  hostname :: string

definition isWhitelistedSite :: "(string \<Rightarrow> url option) \<Rightarrow> string \<Rightarrow> bool" where
  "isWhitelistedSite parseURL u =
     (case parseURL u of
        None \<Rightarrow> False
      | Some parsed \<Rightarrow> list_ex (\<lambda>site. includes_str (hostname parsed) site) WHITELISTED_SITES)"

record sync_service =
  deviceId :: "string option"
  isEnabled :: bool
  supabaseUrl :: "string option"
  supabaseAnonKey :: "string option"
  isConfigured :: bool

text \<open>The four keys \<open>init\<close> reads from \<open>chrome.storage.local\<close>.\<close>

record sync_storage =
  st_deviceId :: "string option"
  st_dataSyncConsent :: "bool option"
  st_supabaseUrl :: "string option"
  st_supabaseAnonKey :: "string option"

definition new_service :: sync_service where
  "new_service =
     \<lparr>deviceId = None, isEnabled = False, supabaseUrl = None, supabaseAnonKey = None,
      isConfigured = False\<rparr>"

text \<open>
  \<open>init\<close>: the storage read may fail (\<open>None\<close>) and so may the write of a new device
  id (\<open>writeOk\<close> false); the \<open>catch\<close> swallows both and leaves the remaining fields at
  their initial values. \<open>randomUUID\<close> is the value \<open>crypto.randomUUID()\<close> returns. The
  result is the service and the storage afterwards.
\<close>

definition init ::
  "sync_storage option \<Rightarrow> string \<Rightarrow> bool \<Rightarrow> sync_service \<times> sync_storage option" where
  "init storage randomUUID writeOk =
     (case storage of
        None \<Rightarrow> (new_service, None)
      | Some result \<Rightarrow>
          if \<not> truthy (st_deviceId result) \<and> \<not> writeOk then
            (new_service\<lparr>deviceId := Some randomUUID\<rparr>, Some result)
          else
            (let (dev, storage') =
                   (if truthy (st_deviceId result) then (st_deviceId result, result)
                    else (Some randomUUID, result\<lparr>st_deviceId := Some randomUUID\<rparr>));
                 u = (if truthy (st_supabaseUrl result) then st_supabaseUrl result else None);
                 k = (if truthy (st_supabaseAnonKey result) then st_supabaseAnonKey result
                      else None)
             in (\<lparr>deviceId = dev,
                  isEnabled = (case st_dataSyncConsent result of Some b \<Rightarrow> b | None \<Rightarrow> False),
                  supabaseUrl = u, supabaseAnonKey = k,
                  isConfigured = (truthy u \<and> truthy k)\<rparr>,
                 Some storage')))"

text \<open>The body of the POST to \<open>/rest/v1/subtitle_feedback\<close>.\<close>

record feedback_request =
  f_endpoint :: string
  f_apikey :: "string option"
  f_device_id :: "string option"
  f_site :: string
  f_original_text :: string
  f_translated_text :: "string option"
  f_source_lang :: string
  f_target_lang :: string
  f_created_at :: string

definition substring_0_500 :: "string \<Rightarrow> string" where
  "substring_0_500 s = take 500 s"

text \<open>A string-or-null value inside a template literal.\<close>

fun template :: "string option \<Rightarrow> string" where
  "template None = ''null''"
| "template (Some s) = s"

text \<open>
  \<open>syncSegment\<close> after \<open>initPromise\<close> has settled: \<open>svc\<close> is the service as \<open>init\<close>
  left it, \<open>fetchOutcome\<close> the outcome of the request if one is made, \<open>now\<close> the
  time stamp. The result is the returned boolean and the requests issued.
\<close>

definition syncSegment ::
  "sync_service \<Rightarrow> (string \<Rightarrow> url option) \<Rightarrow> string \<Rightarrow> string option \<Rightarrow> string option
   \<Rightarrow> string \<Rightarrow> string \<Rightarrow> unit fetch_outcome \<Rightarrow> string \<Rightarrow> bool \<times> feedback_request list" where
  "syncSegment svc parseURL videoUrl original translated srcLang tgtLang fetchOutcome now =
     (if \<not> isConfigured svc \<or> \<not> isEnabled svc then (False, [])
      else if \<not> isWhitelistedSite parseURL videoUrl then (False, [])
      else case original of
        None \<Rightarrow> (False, [])
      | Some orig \<Rightarrow>
          if trim orig = [] then (False, [])
          else case parseURL videoUrl of
            None \<Rightarrow> (False, [])
          | Some parsed \<Rightarrow>
              (let request =
                     \<lparr>f_endpoint = template (supabaseUrl svc) @ ''/rest/v1/subtitle_feedback'',
                      f_apikey = supabaseAnonKey svc,
                      f_device_id = deviceId svc, f_site = hostname parsed,
                      f_original_text = substring_0_500 orig,
                      f_translated_text =
                        (case translated of
                           None \<Rightarrow> None
                         | Some t \<Rightarrow> if substring_0_500 t = [] then None
                                     else Some (substring_0_500 t)),
                      f_source_lang = srcLang, f_target_lang = tgtLang, f_created_at = now\<rparr>
               in case fetchOutcome of
                    NetworkFailure \<Rightarrow> (False, [request])
                  | HttpResponse status detail body \<Rightarrow> (ok status, [request])))"

text \<open>
  The allow-list rule in the words of the specification: the hostname is one of the four
  platform domains or a subdomain of one.
\<close>

definition ALLOWED_PLATFORMS :: "string list" where
  "ALLOWED_PLATFORMS = [''youtube.com'', ''bilibili.com'', ''vimeo.com'', ''twitch.tv'']"

definition matches_allow_list :: "string \<Rightarrow> bool" where
  "matches_allow_list h =
     list_ex (\<lambda>site. h = site \<or> ends_with h (''.'' @ site)) ALLOWED_PLATFORMS"

definition is_http :: "url \<Rightarrow> bool" where
  "is_http u = (protocol u = ''http:'' \<or> protocol u = ''https:'')"

text \<open>
  Parse results of the platform for the URLs used as concrete inputs below (hostnames as
  the WHATWG URL parser returns them; the string without a scheme is rejected).
\<close>

definition sampleURL :: "string \<Rightarrow> url option" where
  "sampleURL u =
     (if u = ''https://www.youtube.com/watch?v=1''
        then Some \<lparr>protocol = ''https:'', hostname = ''www.youtube.com''\<rparr>
      else if u = ''https://youtube.com''
        then Some \<lparr>protocol = ''https:'', hostname = ''youtube.com''\<rparr>
      else if u = ''https://evil.com''
        then Some \<lparr>protocol = ''https:'', hostname = ''evil.com''\<rparr>
      else if u = ''file:///local.mp4''
        then Some \<lparr>protocol = ''file:'', hostname = ''''\<rparr>
      else if u = ''ftp://youtube.com/clip.mp4''
        then Some \<lparr>protocol = ''ftp:'', hostname = ''youtube.com''\<rparr>
      else if u = ''https://youtube.com.evil.example/watch''
        then Some \<lparr>protocol = ''https:'', hostname = ''youtube.com.evil.example''\<rparr>
      else None)"

text \<open>
  The stored values of the repository's test suite with consent given: a configured and
  enabled service once \<open>init\<close> has read them.
\<close>

definition test_storage :: sync_storage where
  "test_storage =
     \<lparr>st_deviceId = Some ''test-device-id'', st_dataSyncConsent = Some True,
      st_supabaseUrl = Some ''https://test.supabase.co'',
      st_supabaseAnonKey = Some ''test-key''\<rparr>"

section \<open>DataSyncService.js: the subtitle store\<close>

definition SUPPORTED_LANGUAGES :: "string list" where
  "SUPPORTED_LANGUAGES =
     [''en'', ''vi'', ''zh'', ''ja'', ''ko'', ''fr'', ''de'', ''es'', ''ru'', ''th'']"

text \<open>
  \<open>generateVideoId\<close>: the SHA-256 digest of the UTF-8 bytes of the URL, in lower-case
  hexadecimal. The digest is the platform's \<open>crypto.subtle.digest\<close>, a parameter
  \<open>sha256\<close>. \<open>TextEncoder\<close> writes a code unit below 128 as one byte and one from 128
  to 255 as two.
\<close>

definition utf8_encode :: "string \<Rightarrow> 8 word list" where
  "utf8_encode s =
     concat (map (\<lambda>c. let n = (of_char c :: nat) in
                        if n < 128 then [of_nat n]
                        else [of_nat (192 + n div 64), of_nat (128 + n mod 64)]) s)"

definition hexdigit :: "nat \<Rightarrow> char" where
  "hexdigit d = ''0123456789abcdef'' ! d"

definition toString16 :: "nat \<Rightarrow> string" where
  "toString16 b = (if b < 16 then [hexdigit b] else [hexdigit (b div 16), hexdigit (b mod 16)])"

definition padStart2 :: "string \<Rightarrow> string" where
  "padStart2 s = replicate (2 - length s) (CHR ''0'') @ s"

definition generateVideoId :: "(8 word list \<Rightarrow> 8 word list) \<Rightarrow> string \<Rightarrow> string" where
  "generateVideoId sha256 u =
     (let data = utf8_encode u;
          hashArray = sha256 data
      in concat (map (\<lambda>b. padStart2 (toString16 (unat b))) hashArray))"

text \<open>
  The two object stores. \<open>videos\<close> has the key path \<open>id\<close>: a map from id to record.
  \<open>segments\<close> has auto-incremented keys: the list of its records in key order, which is
  insertion order, and the next key. Time stamps are the strings \<open>toISOString\<close> returns,
  passed in by the caller of each operation. A JavaScript object with string keys is an
  association list in insertion order; \<open>null\<close> is \<open>None\<close>. Requests on the store are
  taken to succeed. Every operation does its read and its write inside one
  \<open>readwrite\<close> transaction, and such transactions on one store run one after another,
  so calls that overlap in time act on the store as a sequence of the steps below.
\<close>

record video =
  v_id :: string
  v_url :: string
  v_title :: string
  v_duration :: real
  v_createdAt :: string
  v_lastAccessed :: string

type_synonym translation_slots = "(string \<times> string option) list"

record segment =
  seg_id :: "nat option"
  seg_videoId :: string
  seg_startTime :: real
  seg_endTime :: real
  seg_original :: string
  seg_sourceLang :: string
  seg_translations :: translation_slots
  seg_confidence :: "real option"
  seg_model :: string
  seg_userCorrected :: bool
  seg_correctedText :: "string option"
  seg_createdAt :: string

record metadata =
  md_confidence :: "real option"
  md_model :: "string option"
  md_userCorrected :: "bool option"
  md_correctedText :: "string option"

record db =
  videos :: "string \<rightharpoonup> video"
  segments :: "segment list"
  nextId :: nat

definition empty_db :: db where
  "empty_db = \<lparr>videos = Map.empty, segments = [], nextId = 1\<rparr>"

definition saveVideo ::
  "(8 word list \<Rightarrow> 8 word list) \<Rightarrow> db \<Rightarrow> string \<Rightarrow> string \<Rightarrow> real \<Rightarrow> string \<Rightarrow> string
   \<Rightarrow> db \<times> video" where
  "saveVideo sha256 d u title duration nowCreated nowAccessed =
     (let vid = generateVideoId sha256 u;
          video = \<lparr>v_id = vid, v_url = u, v_title = title, v_duration = duration,
                   v_createdAt = nowCreated, v_lastAccessed = nowAccessed\<rparr>;
          video' = (case videos d vid of
                      Some existing \<Rightarrow> video\<lparr>v_createdAt := v_createdAt existing\<rparr>
                    | None \<Rightarrow> video)
      in (d\<lparr>videos := (videos d)(vid \<mapsto> video')\<rparr>, video'))"

definition getVideo :: "(8 word list \<Rightarrow> 8 word list) \<Rightarrow> db \<Rightarrow> string \<Rightarrow> video option" where
  "getVideo sha256 d u = videos d (generateVideoId sha256 u)"

text \<open>\<open>obj[key] || null\<close> for an object whose values are strings.\<close>

definition or_null :: "string option option \<Rightarrow> string option" where
  "or_null v = (case v of Some (Some s) \<Rightarrow> (if s = [] then None else Some s) | _ \<Rightarrow> None)"

text \<open>
  \<open>index.openCursor(IDBKeyRange.only([videoId, startTime]))\<close> followed by
  \<open>cursor.update\<close>: the first record in key order with that index key is replaced by
  \<open>f\<close> of it; \<open>None\<close> when the cursor is \<open>null\<close>.
\<close>

definition has_key :: "string \<Rightarrow> real \<Rightarrow> segment \<Rightarrow> bool" where
  "has_key videoId startTime s = (seg_videoId s = videoId \<and> seg_startTime s = startTime)"

fun cursorUpdate ::
  "(segment \<Rightarrow> bool) \<Rightarrow> (segment \<Rightarrow> segment) \<Rightarrow> segment list \<Rightarrow> (segment list \<times> segment) option"
  where
  "cursorUpdate p f [] = None"
| "cursorUpdate p f (s # ss) =
     (if p s then Some (f s # ss, f s)
      else map_option (\<lambda>(ss', r). (s # ss', r)) (cursorUpdate p f ss))"

definition mergeTranslations :: "translation_slots \<Rightarrow> translation_slots \<Rightarrow> translation_slots" where
  "mergeTranslations translationsObj existing =
     fold (\<lambda>lang acc. case or_null (map_of translationsObj lang) of
                         Some t \<Rightarrow> AList.update lang (Some t) acc
                       | None \<Rightarrow> acc)
          (map fst translationsObj) existing"

text \<open>
  The object \<open>saveSegment\<close> builds first: one entry per supported language, the
  caller's value or \<open>null\<close>.
\<close>

definition makeTranslationsObj :: "translation_slots \<Rightarrow> translation_slots" where
  "makeTranslationsObj translationsArg =
     fold (\<lambda>lang obj. AList.update lang (or_null (map_of translationsArg lang)) obj)
          SUPPORTED_LANGUAGES []"

text \<open>The update of an existing record in \<open>saveSegment\<close>.\<close>

definition mergeInto ::
  "translation_slots \<Rightarrow> string \<Rightarrow> string \<Rightarrow> segment \<Rightarrow> segment" where
  "mergeInto translationsObj original srcLang existing =
     existing\<lparr>seg_translations :=
                 mergeTranslations translationsObj (seg_translations existing),
               seg_original := original,
               seg_sourceLang := srcLang\<rparr>"

definition saveSegment ::
  "(8 word list \<Rightarrow> 8 word list) \<Rightarrow> db \<Rightarrow> string \<Rightarrow> real \<Rightarrow> real \<Rightarrow> string \<Rightarrow> string
   \<Rightarrow> translation_slots \<Rightarrow> metadata \<Rightarrow> string \<Rightarrow> string \<Rightarrow> string \<Rightarrow> db \<times> segment" where
  "saveSegment sha256 d videoUrl startTime endTime original srcLang translationsArg md
       nowCreated nowAccessed nowSegment =
     (let videoId = generateVideoId sha256 videoUrl;
          d1 = fst (saveVideo sha256 d videoUrl '''' 0 nowCreated nowAccessed);
          translationsObj = makeTranslationsObj translationsArg;
          segment =
            \<lparr>seg_id = None, seg_videoId = videoId, seg_startTime = startTime,
             seg_endTime = endTime, seg_original = original, seg_sourceLang = srcLang,
             seg_translations = translationsObj,
             seg_confidence = (case md_confidence md of
                                 Some c \<Rightarrow> (if c = 0 then None else Some c) | None \<Rightarrow> None),
             seg_model = (case md_model md of
                            Some m \<Rightarrow> (if m = [] then ''whisper-large-v3'' else m)
                          | None \<Rightarrow> ''whisper-large-v3''),
             seg_userCorrected = (case md_userCorrected md of Some b \<Rightarrow> b | None \<Rightarrow> False),
             seg_correctedText = (case md_correctedText md of
                                    Some t \<Rightarrow> (if t = [] then None else Some t)
                                  | None \<Rightarrow> None),
             seg_createdAt = nowSegment\<rparr>
      in case cursorUpdate (has_key videoId startTime)
                (mergeInto translationsObj original srcLang) (segments d1) of
           Some (segs, existing) \<Rightarrow> (d1\<lparr>segments := segs\<rparr>, existing)
         | None \<Rightarrow>
             (let added = segment\<lparr>seg_id := Some (nextId d1)\<rparr>
              in (d1\<lparr>segments := segments d1 @ [added], nextId := Suc (nextId d1)\<rparr>, added)))"

definition addTranslation ::
  "(8 word list \<Rightarrow> 8 word list) \<Rightarrow> db \<Rightarrow> string \<Rightarrow> real \<Rightarrow> string \<Rightarrow> string option
   \<Rightarrow> db \<times> segment option" where
  "addTranslation sha256 d videoUrl startTime lang translation =
     (let videoId = generateVideoId sha256 videoUrl
      in case cursorUpdate (has_key videoId startTime)
                (\<lambda>segment. segment\<lparr>seg_translations :=
                                       AList.update lang translation (seg_translations segment)\<rparr>)
                (segments d) of
           Some (segs, segment) \<Rightarrow> (d\<lparr>segments := segs\<rparr>, Some segment)
         | None \<Rightarrow> (d, None))"

text \<open>A call of \<open>saveSegment\<close> for a fixed key, as data: the remaining arguments.\<close>

record save_call =
  sc_endTime :: real
  sc_original :: string
  sc_sourceLang :: string
  sc_translations :: translation_slots
  sc_metadata :: metadata
  sc_nowCreated :: string
  sc_nowAccessed :: string
  sc_nowSegment :: string

definition saveAll ::
  "(8 word list \<Rightarrow> 8 word list) \<Rightarrow> string \<Rightarrow> real \<Rightarrow> save_call list \<Rightarrow> db \<Rightarrow> db" where
  "saveAll sha256 videoUrl startTime calls d =
     fold (\<lambda>c d'. fst (saveSegment sha256 d' videoUrl startTime (sc_endTime c) (sc_original c)
                          (sc_sourceLang c) (sc_translations c) (sc_metadata c)
                          (sc_nowCreated c) (sc_nowAccessed c) (sc_nowSegment c)))
          calls d"

text \<open>
  The slot a run of calls supplies for a language: the value of the last call whose entry
  for the language is a non-empty string, \<open>None\<close> when no call has one.
\<close>

definition supplied :: "string \<Rightarrow> save_call \<Rightarrow> string option" where
  "supplied lang c = or_null (map_of (sc_translations c) lang)"

definition lastSupplied :: "string \<Rightarrow> save_call list \<Rightarrow> string option" where
  "lastSupplied lang calls =
     fold (\<lambda>c acc. case supplied lang c of Some t \<Rightarrow> Some t | None \<Rightarrow> acc) calls None"

text \<open>The same for repeated \<open>saveVideo\<close> calls on one URL: title, duration and the two
  time stamps of each call.\<close>

definition saveVideoAll ::
  "(8 word list \<Rightarrow> 8 word list) \<Rightarrow> string \<Rightarrow> (string \<times> real \<times> string \<times> string) list \<Rightarrow> db \<Rightarrow> db"
  where
  "saveVideoAll sha256 u calls d =
     fold (\<lambda>(title, duration, nowCreated, nowAccessed) d'.
             fst (saveVideo sha256 d' u title duration nowCreated nowAccessed))
          calls d"

text \<open>
  The invariant of the specification on a stored segment: the keys of its translations
  object are exactly the supported language codes, each once.
\<close>

definition supported_keys_only :: "segment \<Rightarrow> bool" where
  "supported_keys_only s = (map fst (seg_translations s) = SUPPORTED_LANGUAGES)"

text \<open>
  The scenario of the specification: two saves for one video at start time 10, the first
  with a Vietnamese translation, the second with an English one.
\<close>

definition call_vi :: save_call where
  "call_vi =
     \<lparr>sc_endTime = 13, sc_original = ''Hello'', sc_sourceLang = ''en'',
      sc_translations = [(''vi'', Some ''Xin chao'')],
      sc_metadata = \<lparr>md_confidence = None, md_model = Some ''whisper-large-v3'',
                      md_userCorrected = None, md_correctedText = None\<rparr>,
      sc_nowCreated = ''2026-01-01T10:00:00.000Z'', sc_nowAccessed = ''2026-01-01T10:00:00.000Z'',
      sc_nowSegment = ''2026-01-01T10:00:00.001Z''\<rparr>"

definition call_en :: save_call where
  "call_en =
     \<lparr>sc_endTime = 13, sc_original = ''Hello'', sc_sourceLang = ''en'',
      sc_translations = [(''en'', Some ''Hello'')],
      sc_metadata = \<lparr>md_confidence = None, md_model = Some ''whisper-large-v3'',
                      md_userCorrected = None, md_correctedText = None\<rparr>,
      sc_nowCreated = ''2026-01-01T10:00:05.000Z'', sc_nowAccessed = ''2026-01-01T10:00:05.000Z'',
      sc_nowSegment = ''2026-01-01T10:00:05.001Z''\<rparr>"

section \<open>Verified properties\<close>

subsection \<open>Base64 and WAV round trip\<close>

lemma sextets_lt: "\<forall>x\<in>set bs. x < 256 \<Longrightarrow> \<forall>s\<in>set (sextets bs). s < 64"
  by (induction bs rule: sextets.induct) auto

lemma octets_sextets: "\<forall>x\<in>set bs. x < 256 \<Longrightarrow> octets (sextets bs) = bs"
  by (induction bs rule: sextets.induct) auto

lemma length_sextets:
  "length (sextets bs) = 4 * (length bs div 3) + (if length bs mod 3 = 0 then 0 else length bs mod 3 + 1)"
  by (induction bs rule: sextets.induct) auto

lemma distinct_b64chars: "distinct b64chars"
  by (simp add: b64chars_def)

lemma length_b64chars: "length b64chars = 64"
  by (simp add: b64chars_def)

lemma index_of_nth: "distinct xs \<Longrightarrow> i < length xs \<Longrightarrow> index_of (xs ! i) xs = Some i"
proof (induction xs arbitrary: i)
  case Nil
  then show ?case by simp
next
  case (Cons x xs)
  then show ?case by (cases i) auto
qed

lemma b64chars_plain: "\<forall>c\<in>set b64chars. \<not> ascii_whitespace c \<and> c \<noteq> CHR ''=''"
  by (simp add: b64chars_def ascii_whitespace_def)


lemma those_index_of:
  "\<forall>s\<in>set ss. s < 64 \<Longrightarrow>
   those (map (\<lambda>c. index_of c b64chars) (map (\<lambda>s. b64chars ! s) ss)) = Some ss"
proof (induction ss)
  case Nil
  then show ?case by simp
next
  case (Cons s ss)
  then have "index_of (b64chars ! s) b64chars = Some s"
    by (simp add: index_of_nth distinct_b64chars length_b64chars)
  with Cons show ?case by simp
qed

lemma those_append_pad:
  "index_of (CHR ''='') b64chars = None"
  by (simp add: b64chars_def)

lemma body_plain:
  assumes "\<forall>s\<in>set ss. s < 64"
  shows "\<forall>c\<in>set (map (\<lambda>s. b64chars ! s) ss). \<not> ascii_whitespace c \<and> c \<noteq> CHR ''=''"
proof -
  have "\<forall>c\<in>set (map (\<lambda>s. b64chars ! s) ss). c \<in> set b64chars"
    using assms by (auto simp: length_b64chars)
  with b64chars_plain show ?thesis by blast
qed

lemma filter_body:
  assumes "\<forall>c\<in>set body. \<not> ascii_whitespace c \<and> c \<noteq> CHR ''=''"
  shows "filter (\<lambda>c. \<not> ascii_whitespace c) (body @ replicate k (CHR ''='')) = body @ replicate k (CHR ''='')"
proof -
  have "\<not> ascii_whitespace (CHR ''='')" by (simp add: ascii_whitespace_def)
  with assms show ?thesis by (auto simp: filter_id_conv)
qed

lemma ends_with_last:
  assumes "ends_with d s" and "s \<noteq> []"
  shows "d \<noteq> [] \<and> last d = last s"
proof -
  from assms have le: "length s \<le> length d" and dr: "drop (length d - length s) d = s"
    by (simp_all add: ends_with_def)
  from le assms(2) have ne: "d \<noteq> []" by auto
  from le assms(2) ne have "length d - length s < length d" by (cases s) auto
  then have "last (drop (length d - length s) d) = last d" by (rule last_drop)
  with dr ne show ?thesis by simp
qed

lemma ends_with_append: "ends_with (body @ s) s"
  by (simp add: ends_with_def)

lemma strip_padding_body:
  assumes plain: "\<forall>c\<in>set body. c \<noteq> CHR ''=''"
    and k: "k \<le> 2"
    and len: "(length body + k) mod 4 = 0"
  shows "strip_padding (body @ replicate k (CHR ''='')) = body"
proof -
  have nolast: "\<not> (body \<noteq> [] \<and> last body = CHR ''='')"
    using plain last_in_set by blast
  have no1: "\<not> ends_with body ''=''"
    using ends_with_last [of body "''=''"] nolast by auto
  have no2: "\<not> ends_with body ''==''"
    using ends_with_last [of body "''==''"] nolast by auto
  consider "k = 0" | "k = 1" | "k = 2" using k by linarith
  then show ?thesis
  proof cases
    case 1
    with no1 no2 len show ?thesis by (simp add: strip_padding_def)
  next
    case 2
    have "\<not> ends_with (body @ ''='') ''==''"
    proof
      assume e: "ends_with (body @ ''='') ''==''"
      then have le: "2 \<le> length body + 1" by (simp add: ends_with_def)
      from e have "drop (length body + 1 - 2) (body @ ''='') = ''==''"
        by (simp add: ends_with_def)
      with le have "drop (length body - 1) body @ ''='' = ''==''" by simp
      then have "drop (length body - 1) body = ''=''" by simp
      moreover from le have "1 \<le> length body" by simp
      ultimately have "ends_with body ''=''" by (simp add: ends_with_def)
      with no1 show False by simp
    qed
    moreover have "ends_with (body @ ''='') ''=''" by (rule ends_with_append)
    ultimately show ?thesis using 2 len by (simp add: strip_padding_def)
  next
    case 3
    have r: "replicate k (CHR ''='') = ''==''" using 3 by (simp add: numeral_2_eq_2)
    have "ends_with (body @ ''=='') ''==''" by (rule ends_with_append)
    then show ?thesis using 3 len unfolding r by (simp add: strip_padding_def)
  qed
qed

lemma char_of_of_char_map: "map char_of (map (of_char :: char \<Rightarrow> nat) s) = s"
  by (induction s) simp_all

lemma atob_btoa: "atob (btoa s) = Some s"
proof -
  let ?bs = "map of_char s :: nat list"
  let ?ss = "sextets ?bs"
  let ?body = "map (\<lambda>s. b64chars ! s) ?ss"
  let ?k = "(3 - length s mod 3) mod 3"
  have bytes: "\<forall>x\<in>set ?bs. x < 256" by auto
  have ss: "\<forall>x\<in>set ?ss. x < 64" using sextets_lt [OF bytes] .
  have plain: "\<forall>c\<in>set ?body. \<not> ascii_whitespace c \<and> c \<noteq> CHR ''=''"
    using body_plain [OF ss] .
  have lenb: "length ?body = 4 * (length s div 3) + (if length s mod 3 = 0 then 0 else length s mod 3 + 1)"
    by (simp add: length_sextets)
  have r3: "length s mod 3 = 0 \<or> length s mod 3 = 1 \<or> length s mod 3 = 2" by linarith
  have k: "?k \<le> 2" using r3 by auto
  have len: "(length ?body + ?k) mod 4 = 0"
    unfolding lenb using r3 by auto
  have not1: "length ?body mod 4 \<noteq> 1"
    unfolding lenb using r3 by auto
  have f: "filter (\<lambda>c. \<not> ascii_whitespace c) (btoa s) = ?body @ replicate ?k (CHR ''='')"
    unfolding btoa_def using filter_body [OF plain] .
  have sp: "strip_padding (?body @ replicate ?k (CHR ''='')) = ?body"
    using strip_padding_body [OF _ k len] plain by blast
  have th: "those (map (\<lambda>c. index_of c b64chars) ?body) = Some ?ss"
    using those_index_of [OF ss] .
  have oc: "octets ?ss = ?bs" using octets_sextets [OF bytes] .
  show ?thesis
    unfolding atob_def f sp Let_def using not1 th oc
    by (simp add: char_of_of_char_map del: map_map)
qed

lemma setBytes_replicate:
  "length pre = off \<Longrightarrow> length bs \<le> n \<Longrightarrow>
   setBytes (pre @ replicate n z) off bs = Some ((pre @ bs) @ replicate (n - length bs) z)"
  by (simp add: setBytes_def)

lemma writeString_replicate:
  "length pre = off \<Longrightarrow> length s \<le> n \<Longrightarrow>
   writeString (pre @ replicate n z) off s = Some ((pre @ map (\<lambda>c. of_nat (of_char c)) s) @ replicate (n - length s) z)"
proof (induction s arbitrary: pre off n)
  case Nil
  then show ?case by simp
next
  case (Cons c cs)
  from Cons.prems have n: "1 \<le> n" by simp
  have "setUint8 (pre @ replicate n z) off (of_char c)
      = Some ((pre @ [of_nat (of_char c)]) @ replicate (n - 1) z)"
    unfolding setUint8_def using setBytes_replicate [of pre off "[of_nat (of_char c)]" n z] Cons.prems n
    by simp
  moreover have "writeString ((pre @ [of_nat (of_char c)]) @ replicate (n - 1) z) (Suc off) cs
      = Some (((pre @ [of_nat (of_char c)]) @ map (\<lambda>c. of_nat (of_char c)) cs)
              @ replicate (n - 1 - length cs) z)"
    by (rule Cons.IH) (use Cons.prems in simp_all)
  ultimately show ?case by simp
qed

lemma writeSamples_replicate:
  "length pre = off + i * 2 \<Longrightarrow>
   writeSamples (pre @ replicate (2 * length xs) z) off i xs = Some (pre @ int16_buffer xs)"
proof (induction xs arbitrary: pre i)
  case Nil
  then show ?case by (simp add: int16_buffer_def)
next
  case (Cons x xs)
  have "setInt16 (pre @ replicate (2 * length (x # xs)) z) (off + i * 2) x
      = Some ((pre @ uint16_le x) @ replicate (2 * length xs) z)"
    unfolding setInt16_def
    using setBytes_replicate [of pre "off + i * 2" "uint16_le x" "2 * length (x # xs)" z] Cons.prems
    by (simp add: uint16_le_def)
  moreover have "writeSamples ((pre @ uint16_le x) @ replicate (2 * length xs) z) off (Suc i) xs
      = Some ((pre @ uint16_le x) @ int16_buffer xs)"
    by (rule Cons.IH) (use Cons.prems in \<open>simp add: uint16_le_def\<close>)
  ultimately show ?case by (simp add: int16_buffer_def)
qed


lemma length_uint16_le [simp]: "length (uint16_le w) = 2"
  by (simp add: uint16_le_def)

lemma length_uint32_le [simp]: "length (uint32_le w) = 4"
  by (simp add: uint32_le_def)

lemma length_wavHeader: "length (wavHeader n r) = 44"
  by (simp add: wavHeader_def)

lemma setUint32_replicate:
  "length pre = off \<Longrightarrow> 4 \<le> n \<Longrightarrow>
   setUint32 (pre @ replicate n z) off v = Some ((pre @ uint32_le (of_nat v)) @ replicate (n - 4) z)"
  unfolding setUint32_def using setBytes_replicate [of pre off "uint32_le (of_nat v)" n z] by simp

lemma setUint16_replicate:
  "length pre = off \<Longrightarrow> 2 \<le> n \<Longrightarrow>
   setUint16 (pre @ replicate n z) off v = Some ((pre @ uint16_le (of_nat v)) @ replicate (n - 2) z)"
  unfolding setUint16_def using setBytes_replicate [of pre off "uint16_le (of_nat v)" n z] by simp

lemma createWavFile_eq:
  "createWavFile pcmData sampleRate
     = Some (wavHeader (length pcmData) sampleRate @ int16_buffer pcmData)"
proof -
  let ?d = "length pcmData * 2"
  let ?c = "\<lambda>s. map (\<lambda>c. of_nat (of_char c) :: 8 word) s"
  let ?p1 = "?c ''RIFF''"
  let ?p2 = "?p1 @ uint32_le (of_nat (36 + ?d))"
  let ?p3 = "?p2 @ ?c ''WAVE''"
  let ?p4 = "?p3 @ ?c ''fmt ''"
  let ?p5 = "?p4 @ uint32_le (of_nat 16)"
  let ?p6 = "?p5 @ uint16_le (of_nat 1)"
  let ?p7 = "?p6 @ uint16_le (of_nat 1)"
  let ?p8 = "?p7 @ uint32_le (of_nat sampleRate)"
  let ?p9 = "?p8 @ uint32_le (of_nat (sampleRate * 2))"
  let ?p10 = "?p9 @ uint16_le (of_nat 2)"
  let ?p11 = "?p10 @ uint16_le (of_nat 16)"
  let ?p12 = "?p11 @ ?c ''data''"
  let ?p13 = "?p12 @ uint32_le (of_nat ?d)"
  have s1: "writeString (replicate (44 + ?d) 0) 0 ''RIFF'' = Some (?p1 @ replicate (40 + ?d) 0)"
    using writeString_replicate [of "[]" 0 "''RIFF''" "44 + ?d" 0] by simp
  have s2: "setUint32 (?p1 @ replicate (40 + ?d) 0) 4 (36 + ?d) = Some (?p2 @ replicate (36 + ?d) 0)"
    using setUint32_replicate [of ?p1 4 "40 + ?d" 0 "36 + ?d"] by simp
  have s3: "writeString (?p2 @ replicate (36 + ?d) 0) 8 ''WAVE'' = Some (?p3 @ replicate (32 + ?d) 0)"
    using writeString_replicate [of ?p2 8 "''WAVE''" "36 + ?d" 0] by simp
  have s4: "writeString (?p3 @ replicate (32 + ?d) 0) 12 ''fmt '' = Some (?p4 @ replicate (28 + ?d) 0)"
    using writeString_replicate [of ?p3 12 "''fmt ''" "32 + ?d" 0] by simp
  have s5: "setUint32 (?p4 @ replicate (28 + ?d) 0) 16 16 = Some (?p5 @ replicate (24 + ?d) 0)"
    using setUint32_replicate [of ?p4 16 "28 + ?d" 0 16] by simp
  have s6: "setUint16 (?p5 @ replicate (24 + ?d) 0) 20 1 = Some (?p6 @ replicate (22 + ?d) 0)"
    using setUint16_replicate [of ?p5 20 "24 + ?d" 0 1] by simp
  have s7: "setUint16 (?p6 @ replicate (22 + ?d) 0) 22 1 = Some (?p7 @ replicate (20 + ?d) 0)"
    using setUint16_replicate [of ?p6 22 "22 + ?d" 0 1] by simp
  have s8: "setUint32 (?p7 @ replicate (20 + ?d) 0) 24 sampleRate = Some (?p8 @ replicate (16 + ?d) 0)"
    using setUint32_replicate [of ?p7 24 "20 + ?d" 0 sampleRate] by simp
  have s9: "setUint32 (?p8 @ replicate (16 + ?d) 0) 28 (sampleRate * 2) = Some (?p9 @ replicate (12 + ?d) 0)"
    using setUint32_replicate [of ?p8 28 "16 + ?d" 0 "sampleRate * 2"] by simp
  have s10: "setUint16 (?p9 @ replicate (12 + ?d) 0) 32 2 = Some (?p10 @ replicate (10 + ?d) 0)"
    using setUint16_replicate [of ?p9 32 "12 + ?d" 0 2] by simp
  have s11: "setUint16 (?p10 @ replicate (10 + ?d) 0) 34 16 = Some (?p11 @ replicate (8 + ?d) 0)"
    using setUint16_replicate [of ?p10 34 "10 + ?d" 0 16] by simp
  have s12: "writeString (?p11 @ replicate (8 + ?d) 0) 36 ''data'' = Some (?p12 @ replicate (4 + ?d) 0)"
    using writeString_replicate [of ?p11 36 "''data''" "8 + ?d" 0] by simp
  have s13: "setUint32 (?p12 @ replicate (4 + ?d) 0) 40 ?d = Some (?p13 @ replicate ?d 0)"
    using setUint32_replicate [of ?p12 40 "4 + ?d" 0 ?d] by simp
  have s14: "writeSamples (?p13 @ replicate ?d 0) 44 0 pcmData = Some (?p13 @ int16_buffer pcmData)"
    using writeSamples_replicate [of ?p13 44 0 pcmData 0] by (simp add: mult.commute)
  have h: "?p13 = wavHeader (length pcmData) sampleRate"
    by (simp add: wavHeader_def)
  have e1: "(16::nat) div 8 = 2" by simp
  have e2: "sampleRate * 1 * 2 = sampleRate * 2" by simp
  have e3: "(1::nat) * 2 = 2" by simp
  show ?thesis
    unfolding createWavFile_def Let_def e1 e2 e3
    by (simp only: s1 s2 s3 s4 s5 s6 s7 s8 s9 s10 s11 s12 s13 s14 s14 [unfolded h] h Option.bind.simps)
qed

lemma fold_snoc_map: "fold (\<lambda>b acc. acc @ [f b]) xs acc = acc @ map f xs"
  by (induction xs arbitrary: acc) simp_all

lemma byte_char_roundtrip: "of_nat (of_char (char_of (unat (b :: 8 word)))) = b"
proof -
  have "unat b < 256" using unsigned_less [of b, where ?'a = nat] by simp
  then show ?thesis by simp
qed

lemma int16_pair: "push_bit 8 (ucast (ucast (drop_bit 8 w) :: 8 word)) OR ucast (ucast w :: 8 word) = (w :: 16 word)"
  by (rule bit_word_eqI) (auto simp add: bit_simps)

lemma int16_view_buffer: "int16_view (int16_buffer samples) = Some samples"
  by (induction samples) (simp_all add: int16_buffer_def uint16_le_def int16_pair)

lemma uint32_of_le_uint32_le: "uint32_of_le (uint32_le w) = unat w"
proof -
  have lt: "unat w < 2 ^ 32" using unsigned_less [of w, where ?'a = nat] by simp
  have b0: "unat (ucast w :: 8 word) = unat w mod 256"
    by (simp add: unsigned_ucast_eq take_bit_eq_mod)
  have b1: "unat (ucast (drop_bit 8 w) :: 8 word) = unat w div 256 mod 256"
    by (simp only: unsigned_ucast_eq unat_drop_bit_eq) (simp add: take_bit_eq_mod drop_bit_eq_div)
  have b2: "unat (ucast (drop_bit 16 w) :: 8 word) = unat w div 65536 mod 256"
    by (simp only: unsigned_ucast_eq unat_drop_bit_eq) (simp add: take_bit_eq_mod drop_bit_eq_div)
  have b3: "unat (ucast (drop_bit 24 w) :: 8 word) = unat w div 16777216 mod 256"
    by (simp only: unsigned_ucast_eq unat_drop_bit_eq) (simp add: take_bit_eq_mod drop_bit_eq_div)
  let ?n = "unat w"
  have d1: "?n div 65536 = ?n div 256 div 256" by (simp add: div_mult2_eq)
  have d2: "?n div 16777216 = ?n div 65536 div 256" by (simp add: div_mult2_eq)
  have top: "?n div 16777216 < 256" using lt by (simp add: less_mult_imp_div_less)
  have m0: "?n = 256 * (?n div 256) + ?n mod 256" by simp
  have m1: "?n div 256 = 256 * (?n div 256 div 256) + ?n div 256 mod 256" by simp
  have m2: "?n div 65536 = 256 * (?n div 65536 div 256) + ?n div 65536 mod 256" by simp
  have m3: "?n div 16777216 mod 256 = ?n div 16777216" using top by simp
  have "?n mod 256 + 256 * (?n div 256 mod 256) + 65536 * (?n div 65536 mod 256)
          + 16777216 * (?n div 16777216 mod 256) = ?n"
    using m0 m1 m2 m3 d1 d2 by linarith
  then show ?thesis
    unfolding uint32_le_def uint32_of_le.simps b0 b1 b2 b3 .
qed

lemma length_int16_buffer: "length (int16_buffer xs) = 2 * length xs"
  by (induction xs) (simp_all add: int16_buffer_def)

lemma wavHeader_size_field: "take 4 (drop 40 (wavHeader n r @ rest)) = uint32_le (of_nat (n * 2))"
  by (simp add: wavHeader_def uint32_le_def uint16_le_def)

lemma base64ToBlob_encoded:
  "base64ToBlob (arrayBufferToBase64 (int16_buffer samples)) mimeType
     = Inr \<lparr>blob_data = wavHeader (length samples) 16000 @ int16_buffer samples,
            blob_type = mimeType\<rparr>"
proof -
  let ?buf = "int16_buffer samples"
  have a: "atob (arrayBufferToBase64 ?buf) = Some (map (\<lambda>b. char_of (unat b)) ?buf)"
    by (simp add: arrayBufferToBase64_def fold_snoc_map atob_btoa)
  have b: "map (\<lambda>c. of_nat (of_char c)) (map (\<lambda>b. char_of (unat b)) ?buf) = ?buf"
    by (simp add: byte_char_roundtrip map_idI del: of_char_of)
  show ?thesis
    unfolding base64ToBlob_def a Let_def option.case b int16_view_buffer createWavFile_eq
    by simp
qed

text \<open>
  C10. Round trip of the audio transport: the raw buffer of \<open>n\<close> 16-bit samples, encoded
  by \<open>arrayBufferToBase64\<close> and decoded by \<open>base64ToBlob\<close> (which calls \<open>createWavFile\<close>),
  gives a WAV buffer of \<open>44 + 2 * n\<close> bytes; the data-size field at offset 40 declares
  \<open>2 * n\<close>; the bytes from offset 44 on are the samples in order, low byte first. The
  bound on \<open>n\<close> is what the 32-bit field can hold; it is above every string or buffer
  length a JavaScript engine allows.
\<close>

theorem wav_round_trip:
  assumes "2 * length samples < 2 ^ 32"
  shows "\<exists>wav. base64ToBlob (arrayBufferToBase64 (int16_buffer samples)) mimeType
            = Inr \<lparr>blob_data = wav, blob_type = mimeType\<rparr>
          \<and> length wav = 44 + 2 * length samples
          \<and> uint32_of_le (take 4 (drop 40 wav)) = 2 * length samples
          \<and> drop 44 wav = concat (map (\<lambda>w. [ucast w, ucast (drop_bit 8 w)]) samples)"
proof -
  let ?buf = "int16_buffer samples"
  let ?wav = "wavHeader (length samples) 16000 @ int16_buffer samples"
  have c: "base64ToBlob (arrayBufferToBase64 ?buf) mimeType
             = Inr \<lparr>blob_data = ?wav, blob_type = mimeType\<rparr>"
    by (rule base64ToBlob_encoded)
  have d: "length ?wav = 44 + 2 * length samples"
    by (simp add: length_wavHeader length_int16_buffer)
  have "unat (of_nat (length samples * 2) :: 32 word) = length samples * 2"
    using assms by (simp only: unat_of_nat) simp
  then have e: "uint32_of_le (take 4 (drop 40 ?wav)) = 2 * length samples"
    unfolding wavHeader_size_field uint32_of_le_uint32_le by simp
  have f: "drop 44 ?wav = concat (map (\<lambda>w. [ucast w, ucast (drop_bit 8 w)]) samples)"
    by (simp add: length_wavHeader int16_buffer_def uint16_le_def [abs_def])
  from c d e f show ?thesis by blast
qed

theorem wav_round_trip_witness:
  "\<exists>wav. base64ToBlob (arrayBufferToBase64 (int16_buffer [1, 258, - 2])) ''audio/wav''
            = Inr \<lparr>blob_data = wav, blob_type = ''audio/wav''\<rparr>
          \<and> length wav = 50
          \<and> uint32_of_le (take 4 (drop 40 wav)) = 6
          \<and> drop 44 wav
              = concat (map (\<lambda>w. [ucast w, ucast (drop_bit 8 w)]) [1, 258, - 2 :: 16 word])"
  using wav_round_trip [of "[1, 258, - 2]" "''audio/wav''"] by simp

subsection \<open>Sample encoding\<close>

lemma trunc_toward_zero_clamped:
  assumes "- 32768 \<le> c" and "c \<le> 32767"
  shows "- 32768 \<le> trunc_toward_zero c \<and> trunc_toward_zero c \<le> 32767"
proof (cases "0 \<le> c")
  case True
  then have "0 \<le> \<lfloor>c\<rfloor>" by simp
  moreover have "\<lfloor>c\<rfloor> \<le> 32767" using assms(2) by (simp add: floor_le_iff)
  ultimately show ?thesis using True by (simp add: trunc_toward_zero_def)
next
  case False
  then have "\<lceil>c\<rceil> \<le> 0" by (simp add: ceiling_le_iff)
  moreover have "- 32768 \<le> \<lceil>c\<rceil>" using assms(1) by (simp add: le_ceiling_iff)
  ultimately show ?thesis using False by (simp add: trunc_toward_zero_def)
qed

lemma encodeSample_Num:
  "encodeSample (Num x) = word_of_int (trunc_toward_zero (max (- 32768) (min 32767 (x * 32768))))"
  by (simp add: encodeSample_def)

lemma sint_encodeSample:
  "sint (encodeSample (Num x)) = trunc_toward_zero (max (- 32768) (min 32767 (x * 32768)))"
proof -
  let ?c = "max (- 32768) (min 32767 (x * 32768)) :: real"
  have "- 32768 \<le> ?c" and "?c \<le> 32767" by simp_all
  then have b: "- 32768 \<le> trunc_toward_zero ?c \<and> trunc_toward_zero ?c \<le> 32767"
    by (rule trunc_toward_zero_clamped)
  have "sint (word_of_int (trunc_toward_zero ?c) :: 16 word)
          = signed_take_bit 15 (trunc_toward_zero ?c)"
    by (simp add: sint_sbintrunc')
  also have "\<dots> = trunc_toward_zero ?c"
    using b by (intro signed_take_bit_int_eq_self) simp_all
  finally show ?thesis by (simp only: encodeSample_Num)
qed

text \<open>
  C6, as stated, at the sample \<open>1/65536\<close> (a 32-bit float): the scaled value is
  \<open>0.5\<close>, inside the range, and the stored sample is 0.
\<close>

theorem encodeSample_fraction_counterexample:
  "real_of_int (sint (encodeSample (Num (1 / 65536))))
     \<noteq> max (- 32768) (min 32767 ((1 / 65536) * 32768))"
  by (simp add: sint_encodeSample trunc_toward_zero_def)

text \<open>
  C6, amended. The stored sample is the scaled value clamped into \<open>[-32768, 32767]\<close> and
  then truncated towards zero, read as a signed 16-bit number: it equals the clamped value
  whenever that is a whole number, a value beyond a bound is stored as that bound, and
  nothing wraps around. The infinities are stored as the bounds and NaN as 0. Every sample
  \<open>onaudioprocess\<close> appends is encoded this way.
\<close>

theorem encodeSample_clamps:
  "sint (encodeSample (Num x)) = trunc_toward_zero (max (- 32768) (min 32767 (x * 32768)))
   \<and> (32767 \<le> x * 32768 \<longrightarrow> sint (encodeSample (Num x)) = 32767)
   \<and> (x * 32768 \<le> - 32768 \<longrightarrow> sint (encodeSample (Num x)) = - 32768)
   \<and> (\<forall>k. max (- 32768) (min 32767 (x * 32768)) = real_of_int k
          \<longrightarrow> sint (encodeSample (Num x)) = k)
   \<and> sint (encodeSample PosInf) = 32767
   \<and> sint (encodeSample NegInf) = - 32768
   \<and> sint (encodeSample NaN) = 0
   \<and> (\<forall>chunks inputData. onaudioprocess True inputData chunks
          = chunks @ [map encodeSample inputData])"
proof -
  have hi: "32767 \<le> x * 32768 \<longrightarrow> sint (encodeSample (Num x)) = 32767"
  proof
    assume "32767 \<le> x * 32768"
    then have "max (- 32768) (min 32767 (x * 32768)) = 32767" by (simp add: min_def)
    then show "sint (encodeSample (Num x)) = 32767"
      by (simp only: sint_encodeSample) (simp add: trunc_toward_zero_def)
  qed
  have lo: "x * 32768 \<le> - 32768 \<longrightarrow> sint (encodeSample (Num x)) = - 32768"
  proof
    assume "x * 32768 \<le> - 32768"
    then have "max (- 32768) (min 32767 (x * 32768)) = - 32768" by (simp add: max_def)
    then show "sint (encodeSample (Num x)) = - 32768"
      by (simp only: sint_encodeSample) (simp add: trunc_toward_zero_def)
  qed
  have whole: "\<forall>k. max (- 32768) (min 32767 (x * 32768)) = real_of_int k
          \<longrightarrow> sint (encodeSample (Num x)) = k"
    by (simp add: sint_encodeSample trunc_toward_zero_def)
  have pinf: "sint (encodeSample PosInf) = 32767"
    by (simp add: encodeSample_def trunc_toward_zero_def)
  have ninf: "sint (encodeSample NegInf) = - 32768"
    by (simp add: encodeSample_def trunc_toward_zero_def)
  have nan: "sint (encodeSample NaN) = 0"
    by (simp add: encodeSample_def)
  have app: "\<forall>chunks inputData. onaudioprocess True inputData chunks
          = chunks @ [map encodeSample inputData]"
    by (simp add: onaudioprocess_def)
  from sint_encodeSample hi lo whole pinf ninf nan app show ?thesis by blast
qed

theorem encodeSample_clamps_witness:
  "sint (encodeSample (Num 2)) = 32767
   \<and> sint (encodeSample (Num (- 3))) = - 32768
   \<and> sint (encodeSample (Num (1 / 2))) = 16384
   \<and> sint (encodeSample (Num (1 / 65536))) = 0"
proof -
  have a: "sint (encodeSample (Num 2)) = 32767"
    using encodeSample_clamps [of 2] by simp
  have b: "sint (encodeSample (Num (- 3))) = - 32768"
    using encodeSample_clamps [of "- 3"] by simp
  have "max (- 32768) (min 32767 ((1 / 2) * 32768)) = real_of_int 16384" by simp
  then have c: "sint (encodeSample (Num (1 / 2))) = 16384"
    using encodeSample_clamps [of "1 / 2"] by blast
  have d: "sint (encodeSample (Num (1 / 65536))) = 0"
    using encodeSample_clamps [of "1 / 65536"] by (simp add: trunc_toward_zero_def)
  from a b c d show ?thesis by blast
qed

subsection \<open>Adaptive scheduler\<close>

lemma adaptChunkSize_bounds:
  "2000 \<le> currentChunkDuration st \<Longrightarrow> currentChunkDuration st \<le> 6000 \<Longrightarrow>
   2000 \<le> currentChunkDuration (adaptChunkSize pt st)
   \<and> currentChunkDuration (adaptChunkSize pt st) \<le> 6000"
  by (simp add: adaptChunkSize_def restartSendInterval_def Let_def)

lemma adaptAll_bounds:
  "2000 \<le> currentChunkDuration st \<Longrightarrow> currentChunkDuration st \<le> 6000 \<Longrightarrow>
   2000 \<le> currentChunkDuration (adaptAll pts st)
   \<and> currentChunkDuration (adaptAll pts st) \<le> 6000"
  unfolding adaptAll_def
proof (induction pts arbitrary: st)
  case Nil
  then show ?case by simp
next
  case (Cons pt pts)
  from adaptChunkSize_bounds [OF Cons.prems]
  have "2000 \<le> currentChunkDuration (adaptChunkSize pt st)"
    and "currentChunkDuration (adaptChunkSize pt st) \<le> 6000" by simp_all
  from Cons.IH [OF this] show ?case by simp
qed

text \<open>
  C5. One adaptation step changes the period exactly as the rule says: more than 80 percent
  of the period with the period below 6000 adds 500 (never beyond 6000); less than
  30 percent with the period above 2000 subtracts 500 (never below 2000); in every other
  case the state is unchanged. From the 3000 ms default a processing time of 2800 ms
  gives 3500 ms and a following 400 ms gives 3000 ms, and no run of steps from the
  default leaves the interval from 2000 to 6000.
\<close>

theorem adaptChunkSize_rule:
  "(real_of_int pt > 0.8 * real_of_int (currentChunkDuration st)
      \<and> currentChunkDuration st < 6000 \<longrightarrow>
      currentChunkDuration (adaptChunkSize pt st) = min 6000 (currentChunkDuration st + 500)
      \<and> currentChunkDuration (adaptChunkSize pt st) \<le> 6000)
   \<and> (real_of_int pt < 0.3 * real_of_int (currentChunkDuration st)
      \<and> currentChunkDuration st > 2000 \<longrightarrow>
      currentChunkDuration (adaptChunkSize pt st) = max 2000 (currentChunkDuration st - 500)
      \<and> 2000 \<le> currentChunkDuration (adaptChunkSize pt st))
   \<and> (\<not> (real_of_int pt > 0.8 * real_of_int (currentChunkDuration st)
           \<and> currentChunkDuration st < 6000)
      \<and> \<not> (real_of_int pt < 0.3 * real_of_int (currentChunkDuration st)
           \<and> currentChunkDuration st > 2000) \<longrightarrow>
      adaptChunkSize pt st = st)
   \<and> currentChunkDuration (adaptChunkSize 2800 initial_content_state) = 3500
   \<and> currentChunkDuration
        (adaptChunkSize 400 (adaptChunkSize 2800 initial_content_state)) = 3000
   \<and> 2000 \<le> currentChunkDuration (adaptAll pts initial_content_state)
   \<and> currentChunkDuration (adaptAll pts initial_content_state) \<le> 6000"
proof -
  have init: "currentChunkDuration initial_content_state = 3000"
    by (simp add: initial_content_state_def AUDIO_CHUNK_DURATION_MS_def)
  have step1: "currentChunkDuration (adaptChunkSize 2800 initial_content_state) = 3500"
    by (simp add: adaptChunkSize_def restartSendInterval_def Let_def init)
  have step2: "currentChunkDuration
        (adaptChunkSize 400 (adaptChunkSize 2800 initial_content_state)) = 3000"
    by (simp add: adaptChunkSize_def [of 400] restartSendInterval_def Let_def step1)
  have run: "2000 \<le> currentChunkDuration (adaptAll pts initial_content_state)
     \<and> currentChunkDuration (adaptAll pts initial_content_state) \<le> 6000"
    by (rule adaptAll_bounds) (simp_all add: init)
  have rule: "(real_of_int pt > 0.8 * real_of_int (currentChunkDuration st)
      \<and> currentChunkDuration st < 6000 \<longrightarrow>
      currentChunkDuration (adaptChunkSize pt st) = min 6000 (currentChunkDuration st + 500)
      \<and> currentChunkDuration (adaptChunkSize pt st) \<le> 6000)
   \<and> (real_of_int pt < 0.3 * real_of_int (currentChunkDuration st)
      \<and> currentChunkDuration st > 2000 \<longrightarrow>
      currentChunkDuration (adaptChunkSize pt st) = max 2000 (currentChunkDuration st - 500)
      \<and> 2000 \<le> currentChunkDuration (adaptChunkSize pt st))
   \<and> (\<not> (real_of_int pt > 0.8 * real_of_int (currentChunkDuration st)
           \<and> currentChunkDuration st < 6000)
      \<and> \<not> (real_of_int pt < 0.3 * real_of_int (currentChunkDuration st)
           \<and> currentChunkDuration st > 2000) \<longrightarrow>
      adaptChunkSize pt st = st)"
    by (auto simp add: adaptChunkSize_def restartSendInterval_def Let_def mult.commute)
  from rule step1 step2 run show ?thesis by blast
qed

theorem adaptChunkSize_rule_witness:
  "currentChunkDuration (adaptChunkSize 2800 initial_content_state) = 3500
   \<and> currentChunkDuration
        (adaptChunkSize 400 (adaptChunkSize 2800 initial_content_state)) = 3000
   \<and> adaptChunkSize 1500 initial_content_state = initial_content_state
   \<and> currentChunkDuration (adaptAll [2800, 400, 100, 100, 100] initial_content_state) = 2000"
proof -
  have init: "currentChunkDuration initial_content_state = 3000"
    by (simp add: initial_content_state_def AUDIO_CHUNK_DURATION_MS_def)
  have s1: "currentChunkDuration (adaptChunkSize 2800 initial_content_state) = 3500"
    using adaptChunkSize_rule [where pt = 2800 and st = initial_content_state and pts = "[]"] by (simp add: init)
  have s2: "currentChunkDuration
        (adaptChunkSize 400 (adaptChunkSize 2800 initial_content_state)) = 3000"
    using adaptChunkSize_rule [where pt = 400 and st = "adaptChunkSize 2800 initial_content_state"
        and pts = "[]"]
    by (simp add: s1)
  have s3: "adaptChunkSize 1500 initial_content_state = initial_content_state"
    using adaptChunkSize_rule [where pt = 1500 and st = initial_content_state and pts = "[]"] by (simp add: init)
  have s4: "currentChunkDuration
      (adaptAll [2800, 400, 100, 100, 100] initial_content_state) = 2000"
    by (simp add: adaptAll_def adaptChunkSize_def restartSendInterval_def Let_def
        initial_content_state_def AUDIO_CHUNK_DURATION_MS_def)
  from s1 s2 s3 s4 show ?thesis by blast
qed

subsection \<open>Freshness guard\<close>

text \<open>
  The double model: a value that fits is kept as it is, and \<open>double_gt_int\<close> is the
  order of the values.
\<close>

lemma to_double_exact:
  assumes "bitlen \<bar>m\<bar> \<le> 53" and "- 1074 \<le> e" and "bitlen \<bar>m\<bar> + e \<le> 1024"
  shows "to_double m e = Double m e"
proof -
  have s: "(max (bitlen \<bar>m\<bar> - 53) (- 1074 - e) \<le> 0) = True"
    using assms(1,2) by simp
  have o: "(1024 < bitlen \<bar>m\<bar> + e) = False"
    using assms(3) by simp
  show ?thesis
    unfolding to_double_def Let_def by (simp only: s o if_True if_False)
qed

text \<open>
  \<open>round_half_even m d\<close> is a whole number nearest to \<open>m / d\<close>: it is off by at most
  one half.
\<close>

lemma round_half_even_nearest:
  assumes "0 < d"
  shows "\<bar>2 * (round_half_even m d * d - m)\<bar> \<le> d"
proof -
  define q r where "q = m div d" and "r = m mod d"
  have e: "q * d = m - r" by (simp add: q_def r_def minus_mod_eq_div_mult)
  have e1: "(q + 1) * d = m - r + d" using e by (simp add: algebra_simps)
  have r: "0 \<le> r" "r < d" using assms by (simp_all add: r_def)
  have "round_half_even m d = q \<and> 2 * r \<le> d \<or> round_half_even m d = q + 1 \<and> d \<le> 2 * r"
    by (auto simp: round_half_even_def Let_def q_def r_def)
  then show ?thesis
  proof
    assume h: "round_half_even m d = q \<and> 2 * r \<le> d"
    then have "round_half_even m d * d - m = - r" using e by simp
    with h r show ?thesis by simp
  next
    assume h: "round_half_even m d = q + 1 \<and> d \<le> 2 * r"
    then have "round_half_even m d * d - m = d - r" using e1 by simp
    with h r show ?thesis by simp
  qed
qed

lemma double_gt_int_value:
  "double_gt_int (Double m e) k
     \<longleftrightarrow> (\<exists>v. double_value (Double m e) = Some v \<and> real_of_int k < v)"
proof (cases "0 \<le> e")
  case True
  have "k < m * 2 ^ nat e \<longleftrightarrow> real_of_int k < real_of_int (m * 2 ^ nat e)"
    by (simp only: of_int_less_iff)
  with True show ?thesis by (simp del: of_int_mult of_int_power)
next
  case False
  have "real_of_int (k * 2 ^ nat (- e)) < real_of_int m
          \<longleftrightarrow> real_of_int k < real_of_int m / 2 ^ nat (- e)"
    by (simp add: pos_less_divide_eq)
  then have "k * 2 ^ nat (- e) < m \<longleftrightarrow> real_of_int k < real_of_int m / 2 ^ nat (- e)"
    by (simp only: of_int_less_iff)
  with False show ?thesis by simp
qed

lemma sendToGroqAPI_stale:
  "double_gt_int (int_minus_double now (double_times_int videoTime 1000)) 5000 \<Longrightarrow>
   sendToGroqAPI st base64Audio videoTime startTime now endTime answer
     = (st\<lparr>lagAccumulator := 0\<rparr>, [], None)"
  by (simp add: sendToGroqAPI_def MAX_LAG_MS_def Let_def)

lemma sendToGroqAPI_fresh:
  "\<not> double_gt_int (int_minus_double now (double_times_int videoTime 1000)) 5000 \<Longrightarrow>
   fst (snd (sendToGroqAPI st base64Audio videoTime startTime now endTime answer))
     = [RuntimeMessage base64Audio (groqApiKey (currentSettings st))
          (sourceLang (currentSettings st)) (targetLang (currentSettings st))
          (showOriginal (currentSettings st))]"
  by (simp add: sendToGroqAPI_def MAX_LAG_MS_def Let_def split: reply.splits)

text \<open>
  Rounding decides at the threshold. The double nearest to 12.001 is
  \<open>6755962391009165 * 2^-49\<close>, a little above 12.001; its product with 1000 rounds to
  12001, so with the clock at 17001 the computed age is 5000, which does not exceed the
  threshold, and the chunk is sent.
\<close>

lemma chunk_age_at_threshold:
  "double_times_int (Double 6755962391009165 (- 49)) 1000 = Double 6597619522469888 (- 39)
   \<and> double_value (Double 6597619522469888 (- 39)) = Some 12001
   \<and> int_minus_double 17001 (Double 6597619522469888 (- 39)) = Double 2748779069440000 (- 39)
   \<and> double_value (Double 2748779069440000 (- 39)) = Some 5000
   \<and> \<not> double_gt_int (Double 2748779069440000 (- 39)) 5000"
  by (simp add: to_double_def round_half_even_def bitlen.simps Let_def)

text \<open>
  C4, as stated, in the mode of the local backend: the socket is open, the chunk was taken
  at video time 12 s and the clock reads 1700000000000 ms, so the chunk age is far above
  5000 ms, and the chunk is still sent.
\<close>

theorem local_backend_sends_stale_chunk:
  "double_gt_int (int_minus_double 1700000000000 (double_times_int (Double 12 0) 1000))
     MAX_LAG_MS
   \<and> sendAudioChunks
        (initial_content_state\<lparr>activeVideo := Some (Double 12 0), websocket := Some True,
           audioChunks := [[1, 2]],
           currentSettings := initial_settings\<lparr>apiMode := ''local''\<rparr>\<rparr>)
        1700000000000 1700000000000 1700000000100 NoResponse
     = (initial_content_state\<lparr>activeVideo := Some (Double 12 0), websocket := Some True,
           audioChunks := [],
           currentSettings := initial_settings\<lparr>apiMode := ''local''\<rparr>\<rparr>,
        [WebSocketSend (arrayBufferToBase64 (int16_buffer [1, 2])) ''auto'' ''vi'' True
           (Double 12 0)],
        None)"
  by (simp add: sendAudioChunks_def sendToLocalBackend_def initial_content_state_def
      initial_settings_def MAX_LAG_MS_def Let_def to_double_def round_half_even_def
      bitlen.simps)

text \<open>
  C4, amended. In the mode \<open>groq\<close>, where the chunk goes to the background script: when
  the chunk age, computed in double precision as the clock minus 1000 times the video time
  stamp, exceeds 5000 ms, the chunk is dropped, nothing is put on the network and the lag
  accumulator is 0 afterwards; otherwise the \<open>transcribe\<close> message is sent. The path of
  the local backend has no freshness guard: whether it sends depends on the socket being
  open only.
\<close>

theorem freshness_guard_groq:
  "(double_gt_int (int_minus_double now (double_times_int videoTime 1000)) 5000 \<longrightarrow>
      sendToGroqAPI st base64Audio videoTime startTime now endTime answer
        = (st\<lparr>lagAccumulator := 0\<rparr>, [], None))
   \<and> (double_gt_int (int_minus_double now (double_times_int videoTime 1000)) 5000
        \<and> apiMode (currentSettings st) = ''groq''
        \<and> activeVideo st = Some videoTime \<and> audioChunks st \<noteq> [] \<longrightarrow>
      sendAudioChunks st startTime now endTime answer
        = (st\<lparr>audioChunks := [], lagAccumulator := 0\<rparr>, [], None))
   \<and> (\<not> double_gt_int (int_minus_double now (double_times_int videoTime 1000)) 5000 \<longrightarrow>
      fst (snd (sendToGroqAPI st base64Audio videoTime startTime now endTime answer))
        = [RuntimeMessage base64Audio (groqApiKey (currentSettings st))
             (sourceLang (currentSettings st)) (targetLang (currentSettings st))
             (showOriginal (currentSettings st))])
   \<and> sendToLocalBackend st base64Audio videoTime
        = (st, if websocket st = Some True
               then [WebSocketSend base64Audio (sourceLang (currentSettings st))
                       (targetLang (currentSettings st)) (showOriginal (currentSettings st))
                       videoTime]
               else [])"
proof -
  have a: "double_gt_int (int_minus_double now (double_times_int videoTime 1000)) 5000 \<longrightarrow>
      sendToGroqAPI st base64Audio videoTime startTime now endTime answer
        = (st\<lparr>lagAccumulator := 0\<rparr>, [], None)"
    using sendToGroqAPI_stale by blast
  have b: "double_gt_int (int_minus_double now (double_times_int videoTime 1000)) 5000
        \<and> apiMode (currentSettings st) = ''groq''
        \<and> activeVideo st = Some videoTime \<and> audioChunks st \<noteq> [] \<longrightarrow>
      sendAudioChunks st startTime now endTime answer
        = (st\<lparr>audioChunks := [], lagAccumulator := 0\<rparr>, [], None)"
    by (simp add: sendAudioChunks_def Let_def sendToGroqAPI_stale)
  have c: "\<not> double_gt_int (int_minus_double now (double_times_int videoTime 1000)) 5000 \<longrightarrow>
      fst (snd (sendToGroqAPI st base64Audio videoTime startTime now endTime answer))
        = [RuntimeMessage base64Audio (groqApiKey (currentSettings st))
             (sourceLang (currentSettings st)) (targetLang (currentSettings st))
             (showOriginal (currentSettings st))]"
    using sendToGroqAPI_fresh by blast
  have d: "sendToLocalBackend st base64Audio videoTime
        = (st, if websocket st = Some True
               then [WebSocketSend base64Audio (sourceLang (currentSettings st))
                       (targetLang (currentSettings st)) (showOriginal (currentSettings st))
                       videoTime]
               else [])"
    by (simp add: sendToLocalBackend_def Let_def)
  show ?thesis by (intro conjI a b c d)
qed

theorem freshness_guard_groq_witness:
  "sendAudioChunks
        (initial_content_state\<lparr>activeVideo := Some (Double 12 0), audioChunks := [[1, 2]]\<rparr>)
        1700000000000 1700000000000 1700000000100 NoResponse
     = (initial_content_state\<lparr>activeVideo := Some (Double 12 0), audioChunks := [],
          lagAccumulator := 0\<rparr>, [], None)
   \<and> fst (snd (sendToGroqAPI initial_content_state ''AQACAA==''
                  (Double 6755962391009165 (- 49)) 17001 17001 17900 NoResponse))
     = [RuntimeMessage ''AQACAA=='' '''' ''auto'' ''vi'' True]
   \<and> sendToGroqAPI initial_content_state ''AQACAA==''
        (Double 6755962391009165 (- 49)) 17002 17002 17900 NoResponse
     = (initial_content_state, [], None)"
proof -
  let ?st = "initial_content_state\<lparr>activeVideo := Some (Double 12 0), audioChunks := [[1, 2]]\<rparr>"
  let ?v = "Double 6755962391009165 (- 49)"
  have m: "apiMode (currentSettings ?st) = ''groq''"
    by (simp add: initial_content_state_def initial_settings_def)
  have stale: "double_gt_int (int_minus_double 1700000000000
      (double_times_int (Double 12 0) 1000)) 5000"
    by (simp add: to_double_def round_half_even_def bitlen.simps Let_def)
  have a: "sendAudioChunks ?st 1700000000000 1700000000000 1700000000100 NoResponse
     = (?st\<lparr>audioChunks := [], lagAccumulator := 0\<rparr>, [], None)"
    using freshness_guard_groq [where now = 1700000000000 and videoTime = "Double 12 0"
        and st = ?st and startTime = 1700000000000 and endTime = 1700000000100
        and answer = NoResponse and base64Audio = "[]"] m stale
    by simp
  have fresh: "\<not> double_gt_int (int_minus_double 17001 (double_times_int ?v 1000)) 5000"
    by (simp add: to_double_def round_half_even_def bitlen.simps Let_def)
  have b: "fst (snd (sendToGroqAPI initial_content_state ''AQACAA=='' ?v 17001 17001 17900
        NoResponse)) = [RuntimeMessage ''AQACAA=='' '''' ''auto'' ''vi'' True]"
    using freshness_guard_groq [where now = 17001 and videoTime = ?v
        and st = initial_content_state and base64Audio = "''AQACAA==''" and startTime = 17001
        and endTime = 17900 and answer = NoResponse] fresh
    by (simp add: initial_content_state_def initial_settings_def)
  have late: "double_gt_int (int_minus_double 17002 (double_times_int ?v 1000)) 5000"
    by (simp add: to_double_def round_half_even_def bitlen.simps Let_def)
  have c: "sendToGroqAPI initial_content_state ''AQACAA=='' ?v 17002 17002 17900 NoResponse
     = (initial_content_state, [], None)"
    using freshness_guard_groq [where now = 17002 and videoTime = ?v
        and st = initial_content_state and base64Audio = "''AQACAA==''" and startTime = 17002
        and endTime = 17900 and answer = NoResponse] late
    by (simp add: initial_content_state_def)
  from a b c show ?thesis by simp
qed

subsection \<open>The translation context\<close>

lemma updateContext_length:
  "length ctx \<le> 3 \<Longrightarrow> length (updateContext original translated ctx) \<le> 3"
  by (auto simp: updateContext_def MAX_CONTEXT_SIZE_def Let_def split: option.splits)

lemma updateContext_push:
  "orig \<noteq> [] \<Longrightarrow> tr \<noteq> [] \<Longrightarrow>
   updateContext (Some orig) (Some tr) ctx
     = (if length ctx < 3 then ctx @ [(orig, tr)] else tl (ctx @ [(orig, tr)]))"
  by (auto simp: updateContext_def MAX_CONTEXT_SIZE_def Let_def)

lemma handleBackendProcessing_context:
  "handleBackendProcessing cfg ctx m proxyFetch = (res, ctx') \<Longrightarrow>
   (case res of Inl e \<Rightarrow> ctx' = ctx
    | Inr r \<Rightarrow> ctx' = updateContext (r_original r) (r_translated r) ctx)"
  by (auto simp: handleBackendProcessing_def
      split: if_splits sum.splits fetch_outcome.splits option.splits)

lemma handleDirectProcessing_context:
  "handleDirectProcessing ctx m transcribeFetch chatFetch = (res, ctx') \<Longrightarrow>
   (case res of Inl e \<Rightarrow> ctx' = ctx
    | Inr r \<Rightarrow> ctx' = updateContext (r_original r) (r_translated r) ctx)"
  by (auto simp: handleDirectProcessing_def Let_def
      split: if_splits sum.splits fetch_outcome.splits option.splits)

lemma handleBackendProcessing_length:
  assumes "length ctx \<le> 3"
  shows "length (snd (handleBackendProcessing cfg ctx m proxyFetch)) \<le> 3"
proof -
  obtain res ctx' where h: "handleBackendProcessing cfg ctx m proxyFetch = (res, ctx')"
    by (cases "handleBackendProcessing cfg ctx m proxyFetch")
  from handleBackendProcessing_context [OF h] assms have "length ctx' \<le> 3"
    by (cases res) (simp_all add: updateContext_length)
  with h show ?thesis by simp
qed

lemma handleDirectProcessing_length:
  assumes "length ctx \<le> 3"
  shows "length (snd (handleDirectProcessing ctx m transcribeFetch chatFetch)) \<le> 3"
proof -
  obtain res ctx' where h: "handleDirectProcessing ctx m transcribeFetch chatFetch = (res, ctx')"
    by (cases "handleDirectProcessing ctx m transcribeFetch chatFetch")
  from handleDirectProcessing_context [OF h] assms have "length ctx' \<le> 3"
    by (cases res) (simp_all add: updateContext_length)
  with h show ?thesis by simp
qed

lemma onMessage_length:
  assumes "length (translationContext st) \<le> 3"
  shows "length (translationContext (snd (onMessage cfg message st))) \<le> 3"
proof (cases message)
  case (Transcribe m proxyFetch transcribeFetch chatFetch)
  show ?thesis
  proof (cases "m_apiMode m = Some ''trial''")
    case True
    with Transcribe handleBackendProcessing_length [OF assms, of cfg m proxyFetch]
    show ?thesis by (simp add: onMessage_def split_beta)
  next
    case False
    with Transcribe handleDirectProcessing_length [OF assms, of m transcribeFetch chatFetch]
    show ?thesis by (simp add: onMessage_def split_beta)
  qed
qed (use assms in \<open>simp_all add: onMessage_def\<close>)

lemma runMessages_length:
  "length (translationContext st) \<le> 3 \<Longrightarrow>
   length (translationContext (runMessages cfg messages st)) \<le> 3"
  unfolding runMessages_def
proof (induction messages arbitrary: st)
  case Nil
  then show ?case by simp
next
  case (Cons m ms)
  from onMessage_length [OF Cons.prems]
  have "length (translationContext (snd (onMessage cfg m st))) \<le> 3" .
  from Cons.IH [OF this] show ?case by simp
qed

lemma fold_updateContext:
  assumes "\<forall>e\<in>set es. fst e \<noteq> [] \<and> snd e \<noteq> []" and "length ctx \<le> 3"
  shows "fold (\<lambda>e. updateContext (Some (fst e)) (Some (snd e))) es ctx
           = drop (length (ctx @ es) - 3) (ctx @ es)"
  using assms
proof (induction es arbitrary: ctx)
  case Nil
  then show ?case by simp
next
  case (Cons e es)
  let ?ctx' = "updateContext (Some (fst e)) (Some (snd e)) ctx"
  from Cons.prems have ne: "fst e \<noteq> []" "snd e \<noteq> []" by simp_all
  have step: "?ctx' = (if length ctx < 3 then ctx @ [e] else tl (ctx @ [e]))"
    using updateContext_push [OF ne, of ctx] by simp
  have len: "length ?ctx' \<le> 3" using Cons.prems(2) by (rule updateContext_length)
  have rest: "\<forall>e\<in>set es. fst e \<noteq> [] \<and> snd e \<noteq> []" using Cons.prems(1) by simp
  have "fold (\<lambda>e. updateContext (Some (fst e)) (Some (snd e))) (e # es) ctx
          = drop (length (?ctx' @ es) - 3) (?ctx' @ es)"
    using Cons.IH [OF rest len] by simp
  also have "\<dots> = drop (length (ctx @ e # es) - 3) (ctx @ e # es)"
  proof (cases "length ctx < 3")
    case True
    then show ?thesis by (simp add: step)
  next
    case False
    with Cons.prems(2) have l3: "length ctx = 3" by simp
    then have "ctx \<noteq> []" by auto
    then have "?ctx' @ es = drop 1 (ctx @ e # es)"
      using False by (simp add: step drop_Suc)
    then show ?thesis using l3 by simp
  qed
  finally show ?case .
qed

text \<open>
  C3. The ledger starts empty and no sequence of messages (transcriptions in either mode
  with any network outcome, resets, state queries) makes it longer than 3; each handler
  keeps the bound. A handler that succeeds with non-empty original and translated text
  appends the pair and, when the ledger was full, drops its first entry; hence after any
  number of successful appends from the empty ledger the last three pairs remain, in
  arrival order.
\<close>

theorem translationContext_bounded:
  "length (translationContext (runMessages cfg messages initial_bg_state)) \<le> 3
   \<and> (length ctx \<le> 3 \<longrightarrow>
        length (snd (handleBackendProcessing cfg ctx m proxyFetch)) \<le> 3
        \<and> length (snd (handleDirectProcessing ctx m transcribeFetch chatFetch)) \<le> 3)
   \<and> ((handleBackendProcessing cfg ctx m proxyFetch = (Inr r, ctx')
         \<or> handleDirectProcessing ctx m transcribeFetch chatFetch = (Inr r, ctx'))
        \<and> r_original r = Some orig \<and> r_translated r = Some tr \<and> orig \<noteq> [] \<and> tr \<noteq> [] \<longrightarrow>
        ctx' = (if length ctx < 3 then ctx @ [(orig, tr)] else tl ctx @ [(orig, tr)]))
   \<and> ((\<forall>e\<in>set es. fst e \<noteq> [] \<and> snd e \<noteq> []) \<longrightarrow>
        fold (\<lambda>e. updateContext (Some (fst e)) (Some (snd e))) es [] = drop (length es - 3) es)"
proof -
  have one: "length (translationContext (runMessages cfg messages initial_bg_state)) \<le> 3"
    by (rule runMessages_length) (simp add: initial_bg_state_def)
  have two: "length ctx \<le> 3 \<longrightarrow>
        length (snd (handleBackendProcessing cfg ctx m proxyFetch)) \<le> 3
        \<and> length (snd (handleDirectProcessing ctx m transcribeFetch chatFetch)) \<le> 3"
    using handleBackendProcessing_length handleDirectProcessing_length by blast
  have three: "(handleBackendProcessing cfg ctx m proxyFetch = (Inr r, ctx')
         \<or> handleDirectProcessing ctx m transcribeFetch chatFetch = (Inr r, ctx'))
        \<and> r_original r = Some orig \<and> r_translated r = Some tr \<and> orig \<noteq> [] \<and> tr \<noteq> [] \<longrightarrow>
        ctx' = (if length ctx < 3 then ctx @ [(orig, tr)] else tl ctx @ [(orig, tr)])"
  proof
    assume h: "(handleBackendProcessing cfg ctx m proxyFetch = (Inr r, ctx')
         \<or> handleDirectProcessing ctx m transcribeFetch chatFetch = (Inr r, ctx'))
        \<and> r_original r = Some orig \<and> r_translated r = Some tr \<and> orig \<noteq> [] \<and> tr \<noteq> []"
    then have "ctx' = updateContext (r_original r) (r_translated r) ctx"
      using handleBackendProcessing_context [of cfg ctx m proxyFetch "Inr r" ctx']
        handleDirectProcessing_context [of ctx m transcribeFetch chatFetch "Inr r" ctx']
      by auto
    with h have "ctx' = (if length ctx < 3 then ctx @ [(orig, tr)] else tl (ctx @ [(orig, tr)]))"
      by (simp add: updateContext_push)
    then show "ctx' = (if length ctx < 3 then ctx @ [(orig, tr)] else tl ctx @ [(orig, tr)])"
      by (cases ctx) auto
  qed
  have four: "(\<forall>e\<in>set es. fst e \<noteq> [] \<and> snd e \<noteq> []) \<longrightarrow>
        fold (\<lambda>e. updateContext (Some (fst e)) (Some (snd e))) es [] = drop (length es - 3) es"
    using fold_updateContext [of es "[]"] by simp
  from one two three four show ?thesis by blast
qed

theorem translationContext_bounded_witness:
  "handleDirectProcessing [(''one'', ''mot''), (''two'', ''hai''), (''three'', ''ba'')]
       \<lparr>m_audio = arrayBufferToBase64 (int16_buffer [1, 2]), m_sourceLang = Some ''en'',
        m_targetLang = Some ''vi'', m_showOriginal = Some True, m_apiMode = Some ''groq'',
        m_groqApiKey = Some ''key''\<rparr>
       (HttpResponse 200 None (Some \<lparr>w_text = Some ''four''\<rparr>))
       (HttpResponse 200 None (Some \<lparr>c_content = Some ''bon''\<rparr>))
     = (Inr \<lparr>r_text = Some ''bon'', r_original = Some ''four'', r_translated = Some ''bon'',
             r_provider = Some ''groq''\<rparr>,
        [(''two'', ''hai''), (''three'', ''ba''), (''four'', ''bon'')])
   \<and> fold (\<lambda>e. updateContext (Some (fst e)) (Some (snd e)))
        [(''one'', ''mot''), (''two'', ''hai''), (''three'', ''ba''), (''four'', ''bon'')] []
     = [(''two'', ''hai''), (''three'', ''ba''), (''four'', ''bon'')]
   \<and> length (snd (handleBackendProcessing \<lparr>backendUrl = Some ''https://b'', apiSecret = Some ''s''\<rparr>
        [(''one'', ''mot''), (''two'', ''hai''), (''three'', ''ba'')]
        \<lparr>m_audio = arrayBufferToBase64 (int16_buffer [1, 2]), m_sourceLang = Some ''en'',
         m_targetLang = Some ''vi'', m_showOriginal = Some True, m_apiMode = Some ''groq'',
         m_groqApiKey = Some ''key''\<rparr>
        (HttpResponse 200 None
           (Some \<lparr>p_text = Some ''bon'', p_original = Some ''four'',
                  p_translated = Some ''bon'', p_provider = Some ''groq''\<rparr>)))) \<le> 3"
proof -
  let ?ctx = "[(''one'', ''mot''), (''two'', ''hai''), (''three'', ''ba'')]"
  let ?m = "\<lparr>m_audio = arrayBufferToBase64 (int16_buffer [1, 2]), m_sourceLang = Some ''en'',
        m_targetLang = Some ''vi'', m_showOriginal = Some True, m_apiMode = Some ''groq'',
        m_groqApiKey = Some ''key''\<rparr>"
  let ?tf = "HttpResponse 200 None (Some \<lparr>w_text = Some ''four''\<rparr>)"
  let ?cf = "HttpResponse 200 None (Some \<lparr>c_content = Some ''bon''\<rparr>)"
  let ?pf = "HttpResponse 200 None
           (Some \<lparr>p_text = Some ''bon'', p_original = Some ''four'',
                  p_translated = Some ''bon'', p_provider = Some ''groq''\<rparr>)"
  let ?cfg = "\<lparr>backendUrl = Some ''https://b'', apiSecret = Some ''s''\<rparr>"
  let ?r = "\<lparr>r_text = Some ''bon'', r_original = Some ''four'', r_translated = Some ''bon'',
             r_provider = Some ''groq''\<rparr>"
  let ?es = "[(''one'', ''mot''), (''two'', ''hai''), (''three'', ''ba''), (''four'', ''bon'')]"
  have run: "\<exists>ctx'. handleDirectProcessing ?ctx ?m ?tf ?cf = (Inr ?r, ctx')"
    by (simp add: handleDirectProcessing_def base64ToBlob_encoded translateText_def ok_def
        trim_def js_whitespace_def Let_def)
  then obtain ctx' where h: "handleDirectProcessing ?ctx ?m ?tf ?cf = (Inr ?r, ctx')" ..
  note inst = translationContext_bounded [where cfg = ?cfg and messages = "[]" and ctx = ?ctx
      and m = ?m and proxyFetch = ?pf and transcribeFetch = ?tf and chatFetch = ?cf
      and r = ?r and ctx' = ctx' and orig = "''four''" and tr = "''bon''" and es = ?es]
  from inst h have "ctx' = [(''two'', ''hai''), (''three'', ''ba''), (''four'', ''bon'')]"
    by simp
  with h have a: "handleDirectProcessing ?ctx ?m ?tf ?cf
      = (Inr ?r, [(''two'', ''hai''), (''three'', ''ba''), (''four'', ''bon'')])" by simp
  from inst have b: "fold (\<lambda>e. updateContext (Some (fst e)) (Some (snd e))) ?es []
      = [(''two'', ''hai''), (''three'', ''ba''), (''four'', ''bon'')]" by simp
  from inst have c: "length (snd (handleBackendProcessing ?cfg ?ctx ?m ?pf)) \<le> 3" by simp
  from a b c show ?thesis by blast
qed

subsection \<open>Direct mode: failure of the translation leg\<close>

lemma translateText_non_2xx:
  "\<not> ok status \<Longrightarrow>
   translateText text lang key mode ctx (HttpResponse status detail body) = Inr ''''"
  by (simp add: translateText_def)

text \<open>
  A response outside 200 to 299 from the translation endpoint degrades to an empty
  translation; the transcription is returned and the ledger is unchanged.
\<close>

lemma handleDirectProcessing_translation_non_2xx:
  assumes "base64ToBlob (m_audio m) ''audio/wav'' = Inr b"
    and "m_groqApiKey m = Some key" and "key \<noteq> []"
    and "m_targetLang m = Some lang" and "lang \<noteq> []"
    and "ok status" and "\<not> ok status'"
  shows "handleDirectProcessing ctx m (HttpResponse status detail (Some \<lparr>w_text = text\<rparr>))
           (HttpResponse status' detail' body')
         = (Inr \<lparr>r_text = text, r_original = text, r_translated = Some '''',
                 r_provider = m_apiMode m\<rparr>, ctx)"
  using assms
  by (simp add: handleDirectProcessing_def translateText_def Let_def updateContext_def
      split: option.splits)

text \<open>
  C7 at a failing input: the transcription request succeeds with the text \<open>hello\<close>, a
  target language is requested, and the translation request fails at the network level.
  \<open>translateText\<close> has no handler around its \<open>fetch\<close>, so the rejection reaches the
  \<open>catch\<close> of \<open>handleDirectProcessing\<close>, which rethrows: the handler answers with an
  error and the transcription is lost.
\<close>

theorem translation_network_failure_loses_transcription:
  "handleDirectProcessing []
       \<lparr>m_audio = arrayBufferToBase64 (int16_buffer [1, 2]), m_sourceLang = Some ''en'',
        m_targetLang = Some ''vi'', m_showOriginal = Some True, m_apiMode = Some ''groq'',
        m_groqApiKey = Some ''key''\<rparr>
       (HttpResponse 200 None (Some \<lparr>w_text = Some ''hello''\<rparr>))
       NetworkFailure
     = (Inl NetworkError, [])
   \<and> onMessage cfg
       (Transcribe
          \<lparr>m_audio = arrayBufferToBase64 (int16_buffer [1, 2]), m_sourceLang = Some ''en'',
           m_targetLang = Some ''vi'', m_showOriginal = Some True, m_apiMode = Some ''groq'',
           m_groqApiKey = Some ''key''\<rparr>
          proxyFetch
          (HttpResponse 200 None (Some \<lparr>w_text = Some ''hello''\<rparr>))
          NetworkFailure)
       initial_bg_state
     = (Failure NetworkError, initial_bg_state)"
  by (simp add: handleDirectProcessing_def base64ToBlob_encoded translateText_def ok_def
      Let_def onMessage_def initial_bg_state_def)

subsection \<open>The consent gate\<close>

lemma startsWith_iff: "startsWith s t \<longleftrightarrow> (\<exists>r. s = t @ r)"
  by (induction s t rule: startsWith.induct) auto

lemma includes_str_iff: "includes_str h t \<longleftrightarrow> (\<exists>p r. h = p @ t @ r)"
proof (induction h)
  case Nil
  then show ?case by simp
next
  case (Cons c cs)
  show ?case
  proof
    assume "includes_str (c # cs) t"
    then consider "startsWith (c # cs) t" | "includes_str cs t" by auto
    then show "\<exists>p r. c # cs = p @ t @ r"
    proof cases
      case 1
      then obtain r where "c # cs = t @ r" by (auto simp: startsWith_iff)
      then have "c # cs = [] @ t @ r" by simp
      then show ?thesis by blast
    next
      case 2
      with Cons.IH obtain p r where "cs = p @ t @ r" by blast
      then have "c # cs = (c # p) @ t @ r" by simp
      then show ?thesis by blast
    qed
  next
    assume "\<exists>p r. c # cs = p @ t @ r"
    then obtain p r where e: "c # cs = p @ t @ r" by blast
    show "includes_str (c # cs) t"
    proof (cases p)
      case Nil
      with e have "startsWith (c # cs) t" by (auto simp: startsWith_iff)
      then show ?thesis by simp
    next
      case (Cons a p')
      with e have "cs = p' @ t @ r" by simp
      with Cons.IH have "includes_str cs t" by blast
      then show ?thesis by simp
    qed
  qed
qed

lemma includes_str_suffix: "includes_str h (a @ b) \<Longrightarrow> includes_str h b"
proof -
  assume "includes_str h (a @ b)"
  then obtain p r where "h = p @ (a @ b) @ r" by (auto simp: includes_str_iff)
  then have "h = (p @ a) @ b @ r" by simp
  then show ?thesis unfolding includes_str_iff by blast
qed

lemma includes_str_self: "includes_str h h"
proof -
  have "h = [] @ h @ []" by simp
  then show ?thesis unfolding includes_str_iff by blast
qed

lemma ends_with_includes: "ends_with h t \<Longrightarrow> includes_str h t"
proof -
  assume "ends_with h t"
  then have "drop (length h - length t) h = t" by (simp add: ends_with_def)
  then have "h = take (length h - length t) h @ t @ []"
    by (metis append_Nil2 append_take_drop_id)
  then show ?thesis unfolding includes_str_iff by blast
qed

lemma whitelisted_contains_platform:
  assumes "list_ex (\<lambda>site. includes_str h site) WHITELISTED_SITES"
  shows "list_ex (\<lambda>site. includes_str h site) ALLOWED_PLATFORMS"
proof -
  have w: "\<And>s. includes_str h (''www.'' @ s) \<Longrightarrow> includes_str h s"
    by (rule includes_str_suffix)
  from assms consider
      "includes_str h ''youtube.com''" | "includes_str h (''www.'' @ ''youtube.com'')"
    | "includes_str h ''bilibili.com''" | "includes_str h (''www.'' @ ''bilibili.com'')"
    | "includes_str h ''vimeo.com''" | "includes_str h (''www.'' @ ''vimeo.com'')"
    | "includes_str h ''twitch.tv''" | "includes_str h (''www.'' @ ''twitch.tv'')"
    by (auto simp: WHITELISTED_SITES_def)
  then have "includes_str h ''youtube.com'' \<or> includes_str h ''bilibili.com''
      \<or> includes_str h ''vimeo.com'' \<or> includes_str h ''twitch.tv''"
    using w by cases blast+
  then show ?thesis by (auto simp: ALLOWED_PLATFORMS_def)
qed

lemma matches_allow_list_whitelisted:
  assumes "matches_allow_list h"
  shows "list_ex (\<lambda>site. includes_str h site) WHITELISTED_SITES"
proof -
  from assms obtain site where s: "site \<in> set ALLOWED_PLATFORMS"
    and m: "h = site \<or> ends_with h (''.'' @ site)"
    by (auto simp: matches_allow_list_def list_ex_iff)
  from m have "includes_str h site"
    using includes_str_self ends_with_includes includes_str_suffix by blast
  moreover from s have "site \<in> set WHITELISTED_SITES"
    by (auto simp: ALLOWED_PLATFORMS_def WHITELISTED_SITES_def)
  ultimately show ?thesis by (auto simp: list_ex_iff)
qed

lemma syncSegment_refuses:
  assumes "\<not> isConfigured svc \<or> \<not> isEnabled svc \<or> \<not> isWhitelistedSite parseURL videoUrl
      \<or> original = None \<or> (\<exists>s. original = Some s \<and> trim s = [])"
  shows "syncSegment svc parseURL videoUrl original translated srcLang tgtLang fetchOutcome now
      = (False, [])"
  using assms by (auto simp: syncSegment_def split: option.splits)

lemma init_test_storage:
  "fst (init (Some test_storage) ''new-uuid'' True)
     = \<lparr>deviceId = Some ''test-device-id'', isEnabled = True,
        supabaseUrl = Some ''https://test.supabase.co'', supabaseAnonKey = Some ''test-key'',
        isConfigured = True\<rparr>"
  by (simp add: init_def test_storage_def Let_def)

text \<open>
  The host test is \<open>hostname.includes(site)\<close>, a substring test: a hostname that merely
  contains an allow-listed name, such as \<open>youtube.com.evil.example\<close>, passes although it
  is neither the name nor a subdomain of it, and the record is posted.
\<close>

lemma substring_host_passes:
  "\<not> matches_allow_list ''youtube.com.evil.example''
   \<and> isWhitelistedSite sampleURL ''https://youtube.com.evil.example/watch''
   \<and> fst (syncSegment (fst (init (Some test_storage) ''new-uuid'' True)) sampleURL
        ''https://youtube.com.evil.example/watch'' (Some ''Hello'') (Some ''Xin chao'')
        ''en'' ''vi'' (HttpResponse 201 None None) ''2026-01-01T00:00:00.000Z'')"
  by (simp add: init_test_storage matches_allow_list_def ALLOWED_PLATFORMS_def ends_with_def
      isWhitelistedSite_def sampleURL_def WHITELISTED_SITES_def syncSegment_def trim_def
      js_whitespace_def ok_def Let_def)

text \<open>
  C1, as stated, at a URL that is not http: the platform parses
  \<open>ftp://youtube.com/clip.mp4\<close> to the hostname \<open>youtube.com\<close>, which is on the
  allow-list; nothing looks at the scheme, and the record is posted.
\<close>

theorem non_http_url_matches:
  "sampleURL ''ftp://youtube.com/clip.mp4''
     = Some \<lparr>protocol = ''ftp:'', hostname = ''youtube.com''\<rparr>
   \<and> \<not> is_http \<lparr>protocol = ''ftp:'', hostname = ''youtube.com''\<rparr>
   \<and> isWhitelistedSite sampleURL ''ftp://youtube.com/clip.mp4''
   \<and> syncSegment (fst (init (Some test_storage) ''new-uuid'' True)) sampleURL
        ''ftp://youtube.com/clip.mp4'' (Some ''Hello'') (Some ''Xin chao'')
        ''en'' ''vi'' (HttpResponse 201 None None) ''2026-01-01T00:00:00.000Z''
     = (True,
        [\<lparr>f_endpoint = ''https://test.supabase.co/rest/v1/subtitle_feedback'',
          f_apikey = Some ''test-key'', f_device_id = Some ''test-device-id'',
          f_site = ''youtube.com'', f_original_text = ''Hello'',
          f_translated_text = Some ''Xin chao'', f_source_lang = ''en'',
          f_target_lang = ''vi'', f_created_at = ''2026-01-01T00:00:00.000Z''\<rparr>])"
  by (simp add: init_test_storage is_http_def isWhitelistedSite_def sampleURL_def
      WHITELISTED_SITES_def syncSegment_def trim_def js_whitespace_def ok_def Let_def
      substring_0_500_def)

text \<open>
  C1, amended. \<open>syncSegment\<close> returns false and issues no request when the service is not
  configured, or consent is not given, or the URL does not parse, or the hostname contains
  none of the four platform names, or the original text is missing or empty after trimming.
  A URL that does not parse never matches the allow-list. The scheme is not examined: a URL
  whose hostname is one of the four names or a subdomain of one matches. After \<open>init\<close>
  the service is configured only if both the endpoint and the key are stored and enabled
  only if the stored consent is true.
\<close>

theorem syncSegment_gate:
  "(\<not> isConfigured svc \<or> \<not> isEnabled svc \<or> parseURL videoUrl = None
      \<or> (\<exists>u. parseURL videoUrl = Some u
            \<and> \<not> list_ex (\<lambda>site. includes_str (hostname u) site) ALLOWED_PLATFORMS)
      \<or> original = None \<or> (\<exists>s. original = Some s \<and> trim s = [])
     \<longrightarrow> syncSegment svc parseURL videoUrl original translated srcLang tgtLang fetchOutcome now
           = (False, []))
   \<and> (parseURL videoUrl = None \<longrightarrow> \<not> isWhitelistedSite parseURL videoUrl)
   \<and> (\<forall>u. parseURL videoUrl = Some u \<and> matches_allow_list (hostname u)
          \<longrightarrow> isWhitelistedSite parseURL videoUrl)
   \<and> (\<not> truthy (st_supabaseUrl stored) \<or> \<not> truthy (st_supabaseAnonKey stored)
        \<longrightarrow> \<not> isConfigured (fst (init (Some stored) randomUUID writeOk)))
   \<and> (st_dataSyncConsent stored \<noteq> Some True
        \<longrightarrow> \<not> isEnabled (fst (init (Some stored) randomUUID writeOk)))
   \<and> \<not> isConfigured (fst (init None randomUUID writeOk))
   \<and> \<not> isEnabled (fst (init None randomUUID writeOk))"
proof -
  have gate: "\<not> isConfigured svc \<or> \<not> isEnabled svc \<or> parseURL videoUrl = None
      \<or> (\<exists>u. parseURL videoUrl = Some u
            \<and> \<not> list_ex (\<lambda>site. includes_str (hostname u) site) ALLOWED_PLATFORMS)
      \<or> original = None \<or> (\<exists>s. original = Some s \<and> trim s = [])
     \<longrightarrow> syncSegment svc parseURL videoUrl original translated srcLang tgtLang fetchOutcome now
           = (False, [])"
  proof
    assume h: "\<not> isConfigured svc \<or> \<not> isEnabled svc \<or> parseURL videoUrl = None
      \<or> (\<exists>u. parseURL videoUrl = Some u
            \<and> \<not> list_ex (\<lambda>site. includes_str (hostname u) site) ALLOWED_PLATFORMS)
      \<or> original = None \<or> (\<exists>s. original = Some s \<and> trim s = [])"
    have a: "parseURL videoUrl = None \<Longrightarrow> \<not> isWhitelistedSite parseURL videoUrl"
      by (simp add: isWhitelistedSite_def)
    have b: "\<And>u. parseURL videoUrl = Some u
            \<Longrightarrow> \<not> list_ex (\<lambda>site. includes_str (hostname u) site) ALLOWED_PLATFORMS
            \<Longrightarrow> \<not> isWhitelistedSite parseURL videoUrl"
      using whitelisted_contains_platform by (auto simp: isWhitelistedSite_def)
    from h consider "\<not> isConfigured svc" | "\<not> isEnabled svc" | "parseURL videoUrl = None"
      | u where "parseURL videoUrl = Some u"
          "\<not> list_ex (\<lambda>site. includes_str (hostname u) site) ALLOWED_PLATFORMS"
      | "original = None" | s where "original = Some s" "trim s = []"
      by auto
    then have "\<not> isConfigured svc \<or> \<not> isEnabled svc
        \<or> \<not> isWhitelistedSite parseURL videoUrl
        \<or> original = None \<or> (\<exists>s. original = Some s \<and> trim s = [])"
    proof cases
      case 3
      then show ?thesis using a by simp
    next
      case (4 u)
      then show ?thesis using b by simp
    qed auto
    then show "syncSegment svc parseURL videoUrl original translated srcLang tgtLang
        fetchOutcome now = (False, [])"
      by (rule syncSegment_refuses)
  qed
  have unparsed: "parseURL videoUrl = None \<longrightarrow> \<not> isWhitelistedSite parseURL videoUrl"
    by (simp add: isWhitelistedSite_def)
  have listed: "\<forall>u. parseURL videoUrl = Some u \<and> matches_allow_list (hostname u)
          \<longrightarrow> isWhitelistedSite parseURL videoUrl"
    using matches_allow_list_whitelisted by (auto simp: isWhitelistedSite_def)
  have conf: "\<not> truthy (st_supabaseUrl stored) \<or> \<not> truthy (st_supabaseAnonKey stored)
        \<longrightarrow> \<not> isConfigured (fst (init (Some stored) randomUUID writeOk))"
    by (auto simp: init_def new_service_def Let_def split_beta)
  have cons: "st_dataSyncConsent stored \<noteq> Some True
        \<longrightarrow> \<not> isEnabled (fst (init (Some stored) randomUUID writeOk))"
    by (auto simp: init_def new_service_def Let_def split_beta split: option.splits)
  have none: "\<not> isConfigured (fst (init None randomUUID writeOk))
      \<and> \<not> isEnabled (fst (init None randomUUID writeOk))"
    by (simp add: init_def new_service_def)
  from gate unparsed listed conf cons none show ?thesis by blast
qed

theorem syncSegment_gate_witness:
  "syncSegment (fst (init (Some (test_storage\<lparr>st_dataSyncConsent := Some False\<rparr>))
        ''new-uuid'' True)) sampleURL ''https://youtube.com'' (Some ''Hello'')
        (Some ''Xin chao'') ''en'' ''vi'' (HttpResponse 201 None None) ''2026''
     = (False, [])
   \<and> syncSegment (fst (init (Some test_storage) ''new-uuid'' True)) sampleURL
        ''https://evil.com'' (Some ''Hello'') (Some ''Xin chao'') ''en'' ''vi''
        (HttpResponse 201 None None) ''2026''
     = (False, [])
   \<and> syncSegment (fst (init (Some test_storage) ''new-uuid'' True)) sampleURL
        ''https://youtube.com'' (Some ''  '') (Some ''Xin chao'') ''en'' ''vi''
        (HttpResponse 201 None None) ''2026''
     = (False, [])
   \<and> \<not> isWhitelistedSite sampleURL ''not a url''
   \<and> isWhitelistedSite sampleURL ''https://www.youtube.com/watch?v=1''
   \<and> \<not> isConfigured (fst (init (Some (test_storage\<lparr>st_supabaseAnonKey := None\<rparr>))
        ''new-uuid'' True))"
proof -
  let ?ok = "fst (init (Some test_storage) ''new-uuid'' True)"
  let ?off = "fst (init (Some (test_storage\<lparr>st_dataSyncConsent := Some False\<rparr>))
        ''new-uuid'' True)"
  have off: "\<not> isEnabled ?off"
    using syncSegment_gate [where stored = "test_storage\<lparr>st_dataSyncConsent := Some False\<rparr>"
        and randomUUID = "''new-uuid''" and writeOk = True]
    by simp
  have a: "syncSegment ?off sampleURL ''https://youtube.com'' (Some ''Hello'')
        (Some ''Xin chao'') ''en'' ''vi'' (HttpResponse 201 None None) ''2026'' = (False, [])"
    using syncSegment_gate [where svc = ?off and parseURL = sampleURL
        and videoUrl = "''https://youtube.com''" and original = "Some ''Hello''"] off
    by blast
  have evil: "sampleURL ''https://evil.com''
      = Some \<lparr>protocol = ''https:'', hostname = ''evil.com''\<rparr>
    \<and> \<not> list_ex (\<lambda>site. includes_str ''evil.com'' site) ALLOWED_PLATFORMS"
    by (simp add: sampleURL_def ALLOWED_PLATFORMS_def)
  have b: "syncSegment ?ok sampleURL ''https://evil.com'' (Some ''Hello'') (Some ''Xin chao'')
        ''en'' ''vi'' (HttpResponse 201 None None) ''2026'' = (False, [])"
    using syncSegment_gate [where svc = ?ok and parseURL = sampleURL
        and videoUrl = "''https://evil.com''" and original = "Some ''Hello''"] evil
    by simp
  have blank: "trim ''  '' = []" by (simp add: trim_def js_whitespace_def)
  have c: "syncSegment ?ok sampleURL ''https://youtube.com'' (Some ''  '') (Some ''Xin chao'')
        ''en'' ''vi'' (HttpResponse 201 None None) ''2026'' = (False, [])"
    using syncSegment_gate [where svc = ?ok and parseURL = sampleURL
        and videoUrl = "''https://youtube.com''" and original = "Some ''  ''"] blank
    by simp
  have d: "\<not> isWhitelistedSite sampleURL ''not a url''"
    using syncSegment_gate [where parseURL = sampleURL and videoUrl = "''not a url''"]
    by (simp add: sampleURL_def)
  have www: "sampleURL ''https://www.youtube.com/watch?v=1''
      = Some \<lparr>protocol = ''https:'', hostname = ''www.youtube.com''\<rparr>
    \<and> matches_allow_list ''www.youtube.com''"
    by (simp add: sampleURL_def matches_allow_list_def ALLOWED_PLATFORMS_def ends_with_def)
  have e: "isWhitelistedSite sampleURL ''https://www.youtube.com/watch?v=1''"
    using syncSegment_gate [where parseURL = sampleURL
        and videoUrl = "''https://www.youtube.com/watch?v=1''"] www
    by simp
  have f: "\<not> isConfigured (fst (init (Some (test_storage\<lparr>st_supabaseAnonKey := None\<rparr>))
        ''new-uuid'' True))"
    using syncSegment_gate [where stored = "test_storage\<lparr>st_supabaseAnonKey := None\<rparr>"
        and randomUUID = "''new-uuid''" and writeOk = True]
    by simp
  from a b c d e f show ?thesis by blast
qed

subsection \<open>Video records\<close>

lemma saveVideo_record:
  "saveVideo sha d u title duration nowCreated nowAccessed
     = (d\<lparr>videos := (videos d)(generateVideoId sha u \<mapsto>
             \<lparr>v_id = generateVideoId sha u, v_url = u, v_title = title,
              v_duration = duration,
              v_createdAt = (case videos d (generateVideoId sha u) of
                               Some old \<Rightarrow> v_createdAt old | None \<Rightarrow> nowCreated),
              v_lastAccessed = nowAccessed\<rparr>)\<rparr>,
        \<lparr>v_id = generateVideoId sha u, v_url = u, v_title = title, v_duration = duration,
         v_createdAt = (case videos d (generateVideoId sha u) of
                          Some old \<Rightarrow> v_createdAt old | None \<Rightarrow> nowCreated),
         v_lastAccessed = nowAccessed\<rparr>)"
  by (simp add: saveVideo_def Let_def split: option.splits)

lemma saveVideoAll_existing:
  assumes "videos d (generateVideoId sha u) = Some old" and "calls \<noteq> []"
  shows "\<exists>v. videos (saveVideoAll sha u calls d) (generateVideoId sha u) = Some v
            \<and> v_id v = generateVideoId sha u
            \<and> v_createdAt v = v_createdAt old
            \<and> v_lastAccessed v = snd (snd (snd (last calls)))"
  using assms
proof (induction calls arbitrary: d old)
  case Nil
  then show ?case by simp
next
  case (Cons c calls)
  obtain title duration nowCreated nowAccessed
    where c: "c = (title, duration, nowCreated, nowAccessed)" by (cases c) auto
  let ?d = "fst (saveVideo sha d u title duration nowCreated nowAccessed)"
  let ?v = "\<lparr>v_id = generateVideoId sha u, v_url = u, v_title = title,
             v_duration = duration, v_createdAt = v_createdAt old,
             v_lastAccessed = nowAccessed\<rparr>"
  have step: "videos ?d (generateVideoId sha u) = Some ?v"
    using Cons.prems(1) by (simp add: saveVideo_record)
  have unfold: "saveVideoAll sha u (c # calls) d = saveVideoAll sha u calls ?d"
    by (simp add: saveVideoAll_def c)
  show ?case
  proof (cases "calls = []")
    case True
    with step show ?thesis by (simp add: saveVideoAll_def c)
  next
    case False
    from Cons.IH [OF step False] show ?thesis using False by (simp add: unfold)
  qed
qed

lemma saveSegment_videos:
  "videos (fst (saveSegment sha d u startTime endTime original srcLang trs md
       nowCreated nowAccessed nowSegment))
     = videos (fst (saveVideo sha d u '''' 0 nowCreated nowAccessed))"
  by (simp add: saveSegment_def Let_def split: option.splits prod.splits)

text \<open>
  C9. A save stores the record under the id \<open>generateVideoId\<close> computes from the URL (the
  hexadecimal SHA-256 of its bytes, so the same URL gives the same id); a first save sets
  \<open>createdAt\<close>, every later save for the URL keeps the stored \<open>createdAt\<close> and sets
  \<open>lastAccessed\<close> to its own time stamp; a save leaves every record under another id as
  it was. \<open>saveSegment\<close> saves the video in this way.
\<close>

theorem saveVideo_preserves_createdAt:
  "(\<exists>v. saveVideo sha d u title duration nowCreated nowAccessed
            = (d\<lparr>videos := (videos d)(generateVideoId sha u \<mapsto> v)\<rparr>, v)
         \<and> v_id v = generateVideoId sha u
         \<and> v_lastAccessed v = nowAccessed
         \<and> v_createdAt v = (case videos d (generateVideoId sha u) of
                               Some old \<Rightarrow> v_createdAt old | None \<Rightarrow> nowCreated))
   \<and> (\<forall>k. k \<noteq> generateVideoId sha u \<longrightarrow>
          videos (fst (saveVideo sha d u title duration nowCreated nowAccessed)) k
            = videos d k)
   \<and> (videos d (generateVideoId sha u) = None \<longrightarrow>
        (\<exists>v. videos (saveVideoAll sha u
                       ((title, duration, nowCreated, nowAccessed) # calls) d)
                 (generateVideoId sha u) = Some v
            \<and> v_id v = generateVideoId sha u
            \<and> v_createdAt v = nowCreated
            \<and> v_lastAccessed v
                = snd (snd (snd (last ((title, duration, nowCreated, nowAccessed) # calls))))))
   \<and> videos (fst (saveSegment sha d u startTime endTime original srcLang trs md
         nowCreated nowAccessed nowSegment))
       = videos (fst (saveVideo sha d u '''' 0 nowCreated nowAccessed))"
proof -
  let ?id = "generateVideoId sha u"
  let ?d = "fst (saveVideo sha d u title duration nowCreated nowAccessed)"
  have one: "\<exists>v. saveVideo sha d u title duration nowCreated nowAccessed
            = (d\<lparr>videos := (videos d)(?id \<mapsto> v)\<rparr>, v)
         \<and> v_id v = ?id \<and> v_lastAccessed v = nowAccessed
         \<and> v_createdAt v = (case videos d ?id of
                               Some old \<Rightarrow> v_createdAt old | None \<Rightarrow> nowCreated)"
    by (simp add: saveVideo_record)
  have two: "\<forall>k. k \<noteq> ?id \<longrightarrow> videos ?d k = videos d k"
    by (simp add: saveVideo_record)
  have three: "videos d ?id = None \<longrightarrow>
        (\<exists>v. videos (saveVideoAll sha u
                       ((title, duration, nowCreated, nowAccessed) # calls) d) ?id = Some v
            \<and> v_id v = ?id \<and> v_createdAt v = nowCreated
            \<and> v_lastAccessed v
                = snd (snd (snd (last ((title, duration, nowCreated, nowAccessed) # calls)))))"
  proof
    assume none: "videos d ?id = None"
    let ?v = "\<lparr>v_id = ?id, v_url = u, v_title = title, v_duration = duration,
               v_createdAt = nowCreated, v_lastAccessed = nowAccessed\<rparr>"
    have first: "videos ?d ?id = Some ?v" using none by (simp add: saveVideo_record)
    have unfold: "saveVideoAll sha u ((title, duration, nowCreated, nowAccessed) # calls) d
        = saveVideoAll sha u calls ?d"
      by (simp add: saveVideoAll_def)
    show "\<exists>v. videos (saveVideoAll sha u
                       ((title, duration, nowCreated, nowAccessed) # calls) d) ?id = Some v
            \<and> v_id v = ?id \<and> v_createdAt v = nowCreated
            \<and> v_lastAccessed v
                = snd (snd (snd (last ((title, duration, nowCreated, nowAccessed) # calls))))"
    proof (cases "calls = []")
      case True
      with first show ?thesis by (simp add: saveVideoAll_def)
    next
      case False
      from saveVideoAll_existing [OF first False] show ?thesis
        using False by (simp add: unfold)
    qed
  qed
  show ?thesis by (intro conjI one two three saveSegment_videos)
qed

theorem saveVideo_preserves_createdAt_witness:
  "\<exists>v. videos (saveVideoAll (\<lambda>bs. take 2 (bs @ [0, 0])) ''https://youtube.com/watch?v=1''
             [('''', 0, ''2026-01-01T10:00:00.000Z'', ''2026-01-01T10:00:00.001Z''),
              (''Title'', 90, ''2026-01-02T11:00:00.000Z'', ''2026-01-02T11:00:00.002Z'')]
             empty_db)
          (generateVideoId (\<lambda>bs. take 2 (bs @ [0, 0])) ''https://youtube.com/watch?v=1'')
        = Some v
      \<and> v_createdAt v = ''2026-01-01T10:00:00.000Z''
      \<and> v_lastAccessed v = ''2026-01-02T11:00:00.002Z''"
proof -
  let ?sha = "\<lambda>bs :: 8 word list. take 2 (bs @ [0, 0])"
  let ?u = "''https://youtube.com/watch?v=1''"
  note inst = saveVideo_preserves_createdAt [where d = empty_db
      and sha = ?sha and u = ?u
      and title = "''''" and duration = 0 and nowCreated = "''2026-01-01T10:00:00.000Z''"
      and nowAccessed = "''2026-01-01T10:00:00.001Z''"
      and calls = "[(''Title'', 90, ''2026-01-02T11:00:00.000Z'', ''2026-01-02T11:00:00.002Z'')]"
      and startTime = 0 and endTime = 0 and original = "''''" and srcLang = "''''"
      and trs = "[]" and nowSegment = "''''"
      and md = "\<lparr>md_confidence = None, md_model = None, md_userCorrected = None,
                 md_correctedText = None\<rparr>"]
  have none: "videos empty_db (generateVideoId ?sha ?u) = None"
    by (simp add: empty_db_def)
  from inst [THEN conjunct2, THEN conjunct2, THEN conjunct1, THEN mp, OF none]
  have "\<exists>v. videos (saveVideoAll ?sha ?u
             [('''', 0, ''2026-01-01T10:00:00.000Z'', ''2026-01-01T10:00:00.001Z''),
              (''Title'', 90, ''2026-01-02T11:00:00.000Z'', ''2026-01-02T11:00:00.002Z'')]
             empty_db) (generateVideoId ?sha ?u) = Some v
      \<and> v_id v = generateVideoId ?sha ?u
      \<and> v_createdAt v = ''2026-01-01T10:00:00.000Z''
      \<and> v_lastAccessed v = snd (snd (snd (last
            [('''', 0 :: real, ''2026-01-01T10:00:00.000Z'', ''2026-01-01T10:00:00.001Z''),
             (''Title'', 90, ''2026-01-02T11:00:00.000Z'', ''2026-01-02T11:00:00.002Z'')])))" .
  then show ?thesis by auto
qed

subsection \<open>Segments: merging saves\<close>

lemma or_null_idem: "or_null (Some (or_null v)) = or_null v"
  by (auto simp: or_null_def split: option.splits)

lemma map_of_fold_update:
  "map_of (fold (\<lambda>lang obj. AList.update lang (g lang) obj) langs acc) lang
     = (if lang \<in> set langs then Some (g lang) else map_of acc lang)"
  by (induction langs arbitrary: acc) (auto simp: update_conv')

lemma keys_makeTranslationsObj: "map fst (makeTranslationsObj trs) = SUPPORTED_LANGUAGES"
  by (simp add: makeTranslationsObj_def SUPPORTED_LANGUAGES_def update_keys)

lemma map_of_makeTranslationsObj:
  "map_of (makeTranslationsObj trs) lang
     = (if lang \<in> set SUPPORTED_LANGUAGES then Some (or_null (map_of trs lang)) else None)"
  by (simp add: makeTranslationsObj_def map_of_fold_update)

lemma map_of_merge_fold:
  "map_of (fold (\<lambda>lang acc. case h lang of Some t \<Rightarrow> AList.update lang (Some t) acc
                               | None \<Rightarrow> acc) ks ex) lang
     = (if lang \<in> set ks
        then (case h lang of Some t \<Rightarrow> Some (Some t) | None \<Rightarrow> map_of ex lang)
        else map_of ex lang)"
  by (induction ks arbitrary: ex) (auto simp: update_conv' split: option.splits)

lemma map_of_mergeTranslations:
  "map_of (mergeTranslations (makeTranslationsObj trs) ex) lang
     = (if lang \<in> set SUPPORTED_LANGUAGES
        then (case or_null (map_of trs lang) of
                Some t \<Rightarrow> Some (Some t) | None \<Rightarrow> map_of ex lang)
        else map_of ex lang)"
  by (simp add: mergeTranslations_def map_of_merge_fold keys_makeTranslationsObj
      map_of_makeTranslationsObj or_null_idem)

lemma cursorUpdate_None: "cursorUpdate p f ss = None \<longleftrightarrow> filter p ss = []"
  by (induction ss) auto

lemma cursorUpdate_filter:
  assumes "\<And>s. p s \<Longrightarrow> p (f s)" and "cursorUpdate p f ss = Some (ss', r)"
  shows "\<exists>e rest. filter p ss = e # rest \<and> filter p ss' = f e # rest \<and> r = f e"
  using assms(2)
proof (induction ss arbitrary: ss')
  case Nil
  then show ?case by simp
next
  case (Cons s ss)
  show ?case
  proof (cases "p s")
    case True
    with Cons.prems assms(1) show ?thesis by auto
  next
    case False
    with Cons.prems obtain ss'' where u: "cursorUpdate p f ss = Some (ss'', r)"
      and s': "ss' = s # ss''" by auto
    from Cons.IH [OF u] False s' show ?thesis by auto
  qed
qed

lemma has_key_mergeInto:
  "has_key k t s \<Longrightarrow> has_key k t (mergeInto tobj original srcLang s)"
  by (simp add: has_key_def mergeInto_def)

lemma saveVideo_segments:
  "segments (fst (saveVideo sha d u title duration nowCreated nowAccessed)) = segments d"
  by (simp add: saveVideo_def Let_def)

lemma saveSegment_creates:
  assumes "filter (has_key (generateVideoId sha u) t) (segments d) = []"
  shows "\<exists>r. filter (has_key (generateVideoId sha u) t)
                (segments (fst (saveSegment sha d u t endTime original srcLang trs md
                                  nowCreated nowAccessed nowSegment))) = [r]
            \<and> seg_translations r = makeTranslationsObj trs"
proof -
  let ?d1 = "fst (saveVideo sha d u '''' 0 nowCreated nowAccessed)"
  have "cursorUpdate (has_key (generateVideoId sha u) t)
          (mergeInto (makeTranslationsObj trs) original srcLang) (segments ?d1) = None"
    using assms by (simp add: cursorUpdate_None saveVideo_segments)
  then show ?thesis
    using assms by (simp add: saveSegment_def Let_def saveVideo_segments has_key_def)
qed

lemma saveSegment_merges:
  assumes "filter (has_key (generateVideoId sha u) t) (segments d) = [e]"
  shows "\<exists>r. filter (has_key (generateVideoId sha u) t)
                (segments (fst (saveSegment sha d u t endTime original srcLang trs md
                                  nowCreated nowAccessed nowSegment))) = [r]
            \<and> seg_translations r
                = mergeTranslations (makeTranslationsObj trs) (seg_translations e)"
proof -
  let ?d1 = "fst (saveVideo sha d u '''' 0 nowCreated nowAccessed)"
  let ?p = "has_key (generateVideoId sha u) t"
  let ?f = "mergeInto (makeTranslationsObj trs) original srcLang"
  have "cursorUpdate ?p ?f (segments ?d1) \<noteq> None"
    using assms by (simp add: cursorUpdate_None saveVideo_segments)
  then obtain ss' r where c: "cursorUpdate ?p ?f (segments ?d1) = Some (ss', r)" by auto
  from cursorUpdate_filter [OF has_key_mergeInto c] assms
  have f: "filter ?p ss' = [?f e]" by (auto simp: saveVideo_segments)
  have "segments (fst (saveSegment sha d u t endTime original srcLang trs md
                         nowCreated nowAccessed nowSegment)) = ss'"
    using c by (simp add: saveSegment_def Let_def)
  with f show ?thesis by (simp add: mergeInto_def)
qed

lemma saveAll_existing:
  assumes "filter (has_key (generateVideoId sha u) t) (segments d) = [e]"
    and "\<forall>lang\<in>set SUPPORTED_LANGUAGES. map_of (seg_translations e) lang = Some (a lang)"
  shows "\<exists>r. filter (has_key (generateVideoId sha u) t) (segments (saveAll sha u t calls d)) = [r]
            \<and> (\<forall>lang\<in>set SUPPORTED_LANGUAGES.
                  map_of (seg_translations r) lang
                    = Some (fold (\<lambda>c acc. case supplied lang c of Some v \<Rightarrow> Some v
                                           | None \<Rightarrow> acc) calls (a lang)))"
  using assms
proof (induction calls arbitrary: d e a)
  case Nil
  then show ?case by (simp add: saveAll_def)
next
  case (Cons c calls)
  let ?d1 = "fst (saveSegment sha d u t (sc_endTime c) (sc_original c) (sc_sourceLang c)
                    (sc_translations c) (sc_metadata c) (sc_nowCreated c) (sc_nowAccessed c)
                    (sc_nowSegment c))"
  let ?a = "\<lambda>lang. case supplied lang c of Some v \<Rightarrow> Some v | None \<Rightarrow> a lang"
  from saveSegment_merges [OF Cons.prems(1)] obtain r where
    r: "filter (has_key (generateVideoId sha u) t) (segments ?d1) = [r]"
    and tr: "seg_translations r
               = mergeTranslations (makeTranslationsObj (sc_translations c)) (seg_translations e)"
    by blast
  have slots: "\<forall>lang\<in>set SUPPORTED_LANGUAGES. map_of (seg_translations r) lang = Some (?a lang)"
    using Cons.prems(2)
    by (auto simp: tr map_of_mergeTranslations supplied_def split: option.splits)
  have unfold: "saveAll sha u t (c # calls) d = saveAll sha u t calls ?d1"
    by (simp add: saveAll_def)
  from Cons.IH [OF r slots] show ?case by (simp add: unfold)
qed

lemma fold_supplied_source:
  "fold (\<lambda>c acc. case supplied lang c of Some v \<Rightarrow> Some v | None \<Rightarrow> acc) calls a = Some w
   \<Longrightarrow> a = Some w \<or> (\<exists>c\<in>set calls. supplied lang c = Some w)"
  by (induction calls arbitrary: a) (auto split: option.splits)

lemma fold_supplied_kept:
  "a \<noteq> None \<or> (\<exists>c\<in>set calls. supplied lang c \<noteq> None) \<Longrightarrow>
   fold (\<lambda>c acc. case supplied lang c of Some v \<Rightarrow> Some v | None \<Rightarrow> acc) calls a \<noteq> None"
proof (induction calls arbitrary: a)
  case Nil
  then show ?case by simp
next
  case (Cons c calls)
  show ?case
  proof (cases "supplied lang c")
    case None
    with Cons.prems have "a \<noteq> None \<or> (\<exists>c\<in>set calls. supplied lang c \<noteq> None)" by auto
    from Cons.IH [OF this] None show ?thesis by simp
  next
    case (Some v)
    have "Some v \<noteq> None \<or> (\<exists>c\<in>set calls. supplied lang c \<noteq> None)" by simp
    from Cons.IH [OF this] Some show ?thesis by simp
  qed
qed

text \<open>
  C2. Starting from a store without a record for the key (the empty store, or one that
  holds other keys only), after any non-empty sequence of \<open>saveSegment\<close> calls for one
  \<open>(videoUrl, startTime)\<close> the store holds exactly one record with that key. For each
  supported language its slot is the last non-empty value the calls supplied, \<open>null\<close> only
  if no call supplied one: a non-empty value is never erased by a later call without one,
  and every language that was supplied is present with a value that was supplied.
\<close>

theorem saveSegment_merge:
  assumes "calls \<noteq> []"
    and "filter (has_key (generateVideoId sha u) t) (segments d) = []"
  shows "\<exists>r. filter (has_key (generateVideoId sha u) t) (segments (saveAll sha u t calls d)) = [r]
            \<and> (\<forall>lang\<in>set SUPPORTED_LANGUAGES.
                  map_of (seg_translations r) lang = Some (lastSupplied lang calls))
            \<and> (\<forall>lang\<in>set SUPPORTED_LANGUAGES. \<forall>c\<in>set calls. \<forall>v. supplied lang c = Some v \<longrightarrow>
                  (\<exists>w. map_of (seg_translations r) lang = Some (Some w)
                       \<and> (\<exists>c'\<in>set calls. supplied lang c' = Some w)))"
proof -
  from assms(1) obtain c cs where calls: "calls = c # cs" by (cases calls) auto
  let ?d1 = "fst (saveSegment sha d u t (sc_endTime c) (sc_original c) (sc_sourceLang c)
                    (sc_translations c) (sc_metadata c) (sc_nowCreated c) (sc_nowAccessed c)
                    (sc_nowSegment c))"
  from saveSegment_creates [OF assms(2)] obtain r1 where
    r1: "filter (has_key (generateVideoId sha u) t) (segments ?d1) = [r1]"
    and tr1: "seg_translations r1 = makeTranslationsObj (sc_translations c)"
    by blast
  have slots1: "\<forall>lang\<in>set SUPPORTED_LANGUAGES.
      map_of (seg_translations r1) lang = Some (supplied lang c)"
    by (simp add: tr1 map_of_makeTranslationsObj supplied_def)
  have unfold: "saveAll sha u t calls d = saveAll sha u t cs ?d1"
    by (simp add: saveAll_def calls)
  from saveAll_existing [OF r1 slots1, of cs] obtain r where
    r: "filter (has_key (generateVideoId sha u) t) (segments (saveAll sha u t calls d)) = [r]"
    and slots: "\<forall>lang\<in>set SUPPORTED_LANGUAGES.
        map_of (seg_translations r) lang
          = Some (fold (\<lambda>c acc. case supplied lang c of Some v \<Rightarrow> Some v | None \<Rightarrow> acc)
                    cs (supplied lang c))"
    unfolding unfold by blast
  have last: "\<And>lang. lastSupplied lang calls
      = fold (\<lambda>c acc. case supplied lang c of Some v \<Rightarrow> Some v | None \<Rightarrow> acc)
          cs (supplied lang c)"
    by (simp add: lastSupplied_def calls split: option.splits)
  have two: "\<forall>lang\<in>set SUPPORTED_LANGUAGES.
      map_of (seg_translations r) lang = Some (lastSupplied lang calls)"
    using slots by (simp add: last)
  have three: "\<forall>lang\<in>set SUPPORTED_LANGUAGES. \<forall>c\<in>set calls. \<forall>v. supplied lang c = Some v \<longrightarrow>
      (\<exists>w. map_of (seg_translations r) lang = Some (Some w)
           \<and> (\<exists>c'\<in>set calls. supplied lang c' = Some w))"
  proof (intro ballI allI impI)
    fix lang c' v
    assume lang: "lang \<in> set SUPPORTED_LANGUAGES" and c': "c' \<in> set calls"
      and v: "supplied lang c' = Some v"
    have "lastSupplied lang calls \<noteq> None"
      unfolding lastSupplied_def
      by (rule fold_supplied_kept) (use c' v in auto)
    then obtain w where w: "lastSupplied lang calls = Some w" by auto
    then have "\<exists>c''\<in>set calls. supplied lang c'' = Some w"
      unfolding lastSupplied_def using fold_supplied_source [of lang calls None w] by simp
    with two lang w show "\<exists>w. map_of (seg_translations r) lang = Some (Some w)
           \<and> (\<exists>c'\<in>set calls. supplied lang c' = Some w)"
      by auto
  qed
  from r two three show ?thesis by blast
qed

theorem saveSegment_merge_witness:
  "\<exists>r. filter (has_key (generateVideoId (\<lambda>bs. take 2 (bs @ [0, 0]))
                          ''https://youtube.com/watch?v=1'') 10)
           (segments (saveAll (\<lambda>bs. take 2 (bs @ [0, 0])) ''https://youtube.com/watch?v=1'' 10
                        [call_vi, call_en] empty_db)) = [r]
      \<and> map_of (seg_translations r) ''vi'' = Some (Some ''Xin chao'')
      \<and> map_of (seg_translations r) ''en'' = Some (Some ''Hello'')
      \<and> map_of (seg_translations r) ''zh'' = Some None"
proof -
  let ?sha = "\<lambda>bs :: 8 word list. take 2 (bs @ [0, 0])"
  let ?u = "''https://youtube.com/watch?v=1''"
  have ne: "[call_vi, call_en] \<noteq> []" by simp
  have fresh: "filter (has_key (generateVideoId ?sha ?u) 10) (segments empty_db) = []"
    by (simp add: empty_db_def)
  from saveSegment_merge [OF ne fresh] obtain r where
    r: "filter (has_key (generateVideoId ?sha ?u) 10)
          (segments (saveAll ?sha ?u 10 [call_vi, call_en] empty_db)) = [r]"
    and slots: "\<forall>lang\<in>set SUPPORTED_LANGUAGES.
        map_of (seg_translations r) lang = Some (lastSupplied lang [call_vi, call_en])"
    by blast
  have langs: "''vi'' \<in> set SUPPORTED_LANGUAGES" "''en'' \<in> set SUPPORTED_LANGUAGES"
    "''zh'' \<in> set SUPPORTED_LANGUAGES"
    by (simp_all add: SUPPORTED_LANGUAGES_def)
  have vi: "lastSupplied ''vi'' [call_vi, call_en] = Some ''Xin chao''"
    by (simp add: lastSupplied_def supplied_def or_null_def call_vi_def call_en_def)
  have en: "lastSupplied ''en'' [call_vi, call_en] = Some ''Hello''"
    by (simp add: lastSupplied_def supplied_def or_null_def call_vi_def call_en_def)
  have zh: "lastSupplied ''zh'' [call_vi, call_en] = None"
    by (simp add: lastSupplied_def supplied_def or_null_def call_vi_def call_en_def)
  from slots langs vi en zh
  have "map_of (seg_translations r) ''vi'' = Some (Some ''Xin chao'')"
    and "map_of (seg_translations r) ''en'' = Some (Some ''Hello'')"
    and "map_of (seg_translations r) ''zh'' = Some None"
    by auto
  with r show ?thesis by blast
qed

subsection \<open>Segments: keys of the translations object\<close>

lemma keys_merge_fold:
  "set ks \<subseteq> set (map fst ex) \<Longrightarrow>
   map fst (fold (\<lambda>lang acc. case h lang of Some t \<Rightarrow> AList.update lang (Some t) acc
                                | None \<Rightarrow> acc) ks ex) = map fst ex"
proof (induction ks arbitrary: ex)
  case Nil
  then show ?case by simp
next
  case (Cons k ks)
  let ?ex = "case h k of Some t \<Rightarrow> AList.update k (Some t) ex | None \<Rightarrow> ex"
  from Cons.prems have keys: "map fst ?ex = map fst ex"
    by (auto simp: update_keys split: option.splits)
  with Cons.prems have "set ks \<subseteq> set (map fst ?ex)" by simp
  from Cons.IH [OF this] keys show ?case by simp
qed

lemma keys_mergeTranslations:
  "map fst ex = SUPPORTED_LANGUAGES \<Longrightarrow>
   map fst (mergeTranslations (makeTranslationsObj trs) ex) = SUPPORTED_LANGUAGES"
  using keys_merge_fold [of "map fst (makeTranslationsObj trs)" ex]
  by (simp add: mergeTranslations_def keys_makeTranslationsObj)

lemma cursorUpdate_all:
  assumes "\<forall>s\<in>set ss. P s" and "\<And>s. P s \<Longrightarrow> P (f s)"
    and "cursorUpdate p f ss = Some (ss', r)"
  shows "(\<forall>s\<in>set ss'. P s) \<and> P r"
  using assms(1,3)
proof (induction ss arbitrary: ss')
  case Nil
  then show ?case by simp
next
  case (Cons s ss)
  show ?case
  proof (cases "p s")
    case True
    with Cons.prems assms(2) show ?thesis by auto
  next
    case False
    with Cons.prems obtain ss'' where u: "cursorUpdate p f ss = Some (ss'', r)"
      and s': "ss' = s # ss''" by auto
    from Cons.prems(1) have "\<forall>s\<in>set ss. P s" by simp
    from Cons.IH [OF this u] Cons.prems(1) s' show ?thesis by simp
  qed
qed

text \<open>
  \<open>saveSegment\<close>, creating or merging, keeps the keys of every stored translations object
  equal to the supported codes, and so does \<open>addTranslation\<close> for a supported code.
\<close>

lemma saveSegment_supported_keys:
  assumes "\<forall>s\<in>set (segments d). supported_keys_only s"
  shows "(\<forall>s\<in>set (segments (fst (saveSegment sha d u t endTime original srcLang trs md
                                     nowCreated nowAccessed nowSegment))).
            supported_keys_only s)
         \<and> supported_keys_only (snd (saveSegment sha d u t endTime original srcLang trs md
                                        nowCreated nowAccessed nowSegment))"
proof -
  let ?d1 = "fst (saveVideo sha d u '''' 0 nowCreated nowAccessed)"
  let ?p = "has_key (generateVideoId sha u) t"
  let ?f = "mergeInto (makeTranslationsObj trs) original srcLang"
  have inv: "\<forall>s\<in>set (segments ?d1). supported_keys_only s"
    using assms by (simp add: saveVideo_segments)
  have pres: "\<And>s. supported_keys_only s \<Longrightarrow> supported_keys_only (?f s)"
    by (simp add: supported_keys_only_def mergeInto_def keys_mergeTranslations)
  show ?thesis
  proof (cases "cursorUpdate ?p ?f (segments ?d1)")
    case None
    then show ?thesis
      using inv
      by (simp add: saveSegment_def Let_def supported_keys_only_def keys_makeTranslationsObj)
  next
    case (Some res)
    obtain ss' r where res: "res = (ss', r)" by (cases res)
    from cursorUpdate_all [OF inv pres, where p = ?p and ss' = ss' and r = r] Some res
    have "(\<forall>s\<in>set ss'. supported_keys_only s) \<and> supported_keys_only r" by simp
    then show ?thesis using Some res by (simp add: saveSegment_def Let_def)
  qed
qed

lemma addTranslation_supported_keys:
  assumes "\<forall>s\<in>set (segments d). supported_keys_only s"
    and "lang \<in> set SUPPORTED_LANGUAGES"
  shows "\<forall>s\<in>set (segments (fst (addTranslation sha d u t lang translation))).
            supported_keys_only s"
proof -
  let ?p = "has_key (generateVideoId sha u) t"
  let ?f = "\<lambda>segment. segment\<lparr>seg_translations :=
                AList.update lang translation (seg_translations segment)\<rparr>"
  have pres: "\<And>s. supported_keys_only s \<Longrightarrow> supported_keys_only (?f s)"
    using assms(2) by (simp add: supported_keys_only_def update_keys)
  show ?thesis
  proof (cases "cursorUpdate ?p ?f (segments d)")
    case None
    then show ?thesis using assms(1) by (simp add: addTranslation_def Let_def)
  next
    case (Some res)
    obtain ss' r where res: "res = (ss', r)" by (cases res)
    from cursorUpdate_all [OF assms(1) pres, where p = ?p and ss' = ss' and r = r] Some res
    have "\<forall>s\<in>set ss'. supported_keys_only s" by simp
    then show ?thesis using Some res by (simp add: addTranslation_def Let_def)
  qed
qed

text \<open>
  C8 at a failing input: after one save, \<open>addTranslation\<close> for the code \<open>pt\<close>, which
  is not among the ten supported codes, writes an eleventh key into the stored record.
  \<open>addTranslation\<close> assigns \<open>segment.translations[lang]\<close> without looking at
  \<open>SUPPORTED_LANGUAGES\<close>, which \<open>saveSegment\<close> goes through on every write.
\<close>

theorem addTranslation_adds_unsupported_key:
  "map (\<lambda>s. map fst (seg_translations s))
     (segments (fst (addTranslation sha
        (fst (saveSegment sha empty_db u 10 13 ''Hello'' ''en'' [(''vi'', Some ''Xin chao'')]
                md ''t1'' ''t2'' ''t3''))
        u 10 ''pt'' (Some ''Ola''))))
     = [[''en'', ''vi'', ''zh'', ''ja'', ''ko'', ''fr'', ''de'', ''es'', ''ru'', ''th'',
         ''pt'']]
   \<and> \<not> list_all supported_keys_only (segments (fst (addTranslation sha
        (fst (saveSegment sha empty_db u 10 13 ''Hello'' ''en'' [(''vi'', Some ''Xin chao'')]
                md ''t1'' ''t2'' ''t3''))
        u 10 ''pt'' (Some ''Ola''))))"
  by (simp add: addTranslation_def saveSegment_def saveVideo_def empty_db_def Let_def
      has_key_def makeTranslationsObj_def SUPPORTED_LANGUAGES_def supported_keys_only_def)

end
